theory Spec2Isabelle
  imports Complex_Main "HOL-Library.Sublist" "HOL-Library.Char_ord" "HOL-Library.List_Lexorder"
begin

section \<open>Python strings and values\<close>

text \<open>
  A Python \<open>str\<close> is modelled as a \<open>string\<close> (a list of \<open>char\<close>): one \<open>char\<close> stands for
  one code point, so the model covers the code points 0..255. The character classes below
  are the ones CPython uses for \<open>str.isspace\<close>, and for \<open>\s\<close>, \<open>\w\<close> and \<open>\d\<close> in a \<open>re\<close>
  pattern over \<open>str\<close>, cut down to that range.
\<close>

definition NL :: char where
  "NL = CHR 0x0A"

definition DQ :: char where
  "DQ = CHR 0x22"

definition SQ :: char where
  "SQ = CHR 0x27"

definition is_space :: "char \<Rightarrow> bool" where
  "is_space c = (c \<in> {CHR 0x09, CHR 0x0A, CHR 0x0B, CHR 0x0C, CHR 0x0D, CHR 0x1C, CHR 0x1D,
                        CHR 0x1E, CHR 0x1F, CHR 0x20, CHR 0x85, CHR 0xA0})"

definition rstrip :: "string \<Rightarrow> string" where
  "rstrip s = rev (dropWhile is_space (rev s))"

definition lstrip :: "string \<Rightarrow> string" where
  "lstrip s = dropWhile is_space s"

definition strip :: "string \<Rightarrow> string" where
  "strip s = rstrip (lstrip s)"

text \<open>\<open>sep.join(parts)\<close>.\<close>

fun join :: "string \<Rightarrow> string list \<Rightarrow> string" where
  "join sep [] = []"
| "join sep [x] = x"
| "join sep (x # y # ys) = x @ sep @ join sep (y # ys)"

text \<open>The decimal text of an \<open>int\<close>: its digits, with a minus sign below zero.\<close>

definition digit_char :: "nat \<Rightarrow> char" where
  "digit_char d = ''0123456789'' ! d"

fun str_nat :: "nat \<Rightarrow> string" where
  "str_nat n = (if n < 10 then [digit_char n] else str_nat (n div 10) @ [digit_char (n mod 10)])"

declare str_nat.simps [simp del]

definition str_int :: "int \<Rightarrow> string" where
  "str_int i = (if i < 0 then CHR ''-'' # str_nat (nat (- i)) else str_nat (nat i))"

text \<open>
  CPython limits the conversions between \<open>int\<close> and \<open>str\<close>
  (\<open>sys.get_int_max_str_digits()\<close>, 4300 unless the program sets it, and this one does
  not): \<open>str(i)\<close>, and \<open>{i}\<close> in an f-string, raise \<open>ValueError\<close> when \<open>i\<close> has more than
  4300 decimal digits (the sign is not counted), and \<open>int(s)\<close> raises \<open>ValueError\<close> when \<open>s\<close>
  has more than 4300 digits. \<open>py_str_int i\<close> is \<open>str(i)\<close>, \<open>None\<close> when it raises, and
  \<open>int_to_str_error\<close> is the text of the exception then.
\<close>

definition int_max_str_digits :: nat where
  "int_max_str_digits = 4300"

definition decimal_digits :: "int \<Rightarrow> nat" where
  "decimal_digits i = length (str_nat (nat \<bar>i\<bar>))"

definition py_str_int :: "int \<Rightarrow> string option" where
  "py_str_int i = (if int_max_str_digits < decimal_digits i then None else Some (str_int i))"

definition int_to_str_error :: string where
  "int_to_str_error =
     ''Exceeds the limit (4300 digits) for integer string conversion; ''
     @ ''use sys.set_int_max_str_digits() to increase the limit''"

text \<open>
  The values a tool parameter can hold (the spec's ToolCall: string, boolean or integer).
  Python is dynamically typed, so a tool receives whatever the mapping holds.
\<close>

datatype pyval = VStr string | VBool bool | VInt int

text \<open>\<open>str(v)\<close>, which is also what an f-string prints for \<open>{v}\<close>; \<open>None\<close> when it raises
  \<open>ValueError\<close>.\<close>

fun py_str :: "pyval \<Rightarrow> string option" where
  "py_str (VStr s) = Some s"
| "py_str (VBool b) = Some (if b then ''True'' else ''False'')"
| "py_str (VInt i) = py_str_int i"

text \<open>An f-string, as the list of its pieces in order: the text when every piece has one,
  \<open>None\<close> when the conversion of a piece raises.\<close>

fun fstring :: "string option list \<Rightarrow> string option" where
  "fstring [] = Some []"
| "fstring (None # pieces) = None"
| "fstring (Some x # pieces) = (case fstring pieces of None \<Rightarrow> None | Some y \<Rightarrow> Some (x @ y))"

text \<open>Truth value testing, as \<open>if v:\<close> does it.\<close>

fun truthy :: "pyval \<Rightarrow> bool" where
  "truthy (VStr s) = (s \<noteq> [])"
| "truthy (VBool b) = b"
| "truthy (VInt i) = (i \<noteq> 0)"

text \<open>The number a value is in arithmetic and comparisons (\<open>bool\<close> is a subclass of
  \<open>int\<close>); a \<open>str\<close> is none, and comparing it with a number raises \<open>TypeError\<close>.\<close>

fun as_int :: "pyval \<Rightarrow> int option" where
  "as_int (VStr s) = None"
| "as_int (VBool b) = Some (if b then 1 else 0)"
| "as_int (VInt i) = Some i"

fun type_name :: "pyval \<Rightarrow> string" where
  "type_name (VStr s) = ''str''"
| "type_name (VBool b) = ''bool''"
| "type_name (VInt i) = ''int''"

section \<open>The file-system tool set (tools.py)\<close>

text \<open>
  \<open>class ToolResult\<close>: \<open>error\<close> is \<open>Optional[str]\<close> and defaults to \<open>None\<close>.
\<close>

record ToolResult =
  success :: bool
  content :: string
  error :: "string option"

definition failed :: "string \<Rightarrow> ToolResult" where
  "failed msg = \<lparr>success = False, content = [], error = Some msg\<rparr>"

definition succeeded :: "string \<Rightarrow> ToolResult" where
  "succeeded c = \<lparr>success = True, content = c, error = None\<rparr>"

text \<open>
  The operating system, as far as the tools call it. \<open>fs_read p\<close> is the outcome of
  \<open>open(p, 'r', encoding='utf-8')\<close> followed by reading: the decoded text (newlines already
  translated to \<open>\n\<close>, as text mode does), or the exception raised. \<open>ReadOtherError msg\<close> and
  \<open>OsOtherError msg\<close> stand for any other exception \<open>e\<close>, with \<open>msg = str(e)\<close>.
\<close>

datatype read_outcome =
  ReadText string | ReadUnicodeDecodeError | ReadPermissionError | ReadOtherError string

datatype 'a os_outcome = OsOk 'a | OsPermissionError | OsOtherError string

record filesystem =
  fs_exists :: "string \<Rightarrow> bool"
  fs_isdir :: "string \<Rightarrow> bool"
  fs_read :: "string \<Rightarrow> read_outcome"
  fs_listdir :: "string \<Rightarrow> string list os_outcome"
  fs_getsize :: "string \<Rightarrow> nat os_outcome"

text \<open>\<open>os.path.isabs\<close> and \<open>os.path.join\<close> with two arguments, as \<open>posixpath\<close> defines them.\<close>

definition isabs :: "string \<Rightarrow> bool" where
  "isabs p = (case p of [] \<Rightarrow> False | c # cs \<Rightarrow> c = CHR ''/'')"

definition path_join :: "string \<Rightarrow> string \<Rightarrow> string" where
  "path_join a b =
     (if isabs b then b
      else if a = [] \<or> last a = CHR ''/'' then a @ b
      else a @ ''/'' @ b)"

text \<open>\<open>f.readlines()\<close>: every line keeps its \<open>\n\<close>; the last one may have none.\<close>

fun readlines :: "string \<Rightarrow> string list" where
  "readlines [] = []"
| "readlines (c # cs) =
     (if c = NL then [c] # readlines cs
      else (case readlines cs of [] \<Rightarrow> [[c]] | l # ls \<Rightarrow> (c # l) # ls))"

text \<open>\<open>lines[a:b]\<close> for \<open>0 <= a\<close> and \<open>0 <= b\<close> (the only slices \<open>read_file\<close> takes: it has
  checked \<open>1 <= start <= end\<close> before). An empty list when \<open>b <= a\<close>; never an error.\<close>

definition py_slice :: "'a list \<Rightarrow> int \<Rightarrow> int \<Rightarrow> 'a list" where
  "py_slice xs a b = drop (nat a) (take (nat b) xs)"

text \<open>\<open>min(a, b)\<close> on two numbers returns the object \<open>a\<close> unless \<open>b < a\<close>.\<close>

definition py_min :: "pyval \<Rightarrow> int \<Rightarrow> int \<Rightarrow> pyval" where
  "py_min a_obj a b = (if b < a then VInt b else a_obj)"

text \<open>The texts of the \<open>TypeError\<close>s CPython raises on a value of the wrong type.\<close>

definition fspath_type_error :: "pyval \<Rightarrow> string" where
  "fspath_type_error v = ''expected str, bytes or os.PathLike object, not '' @ type_name v"

definition join_type_error :: "pyval \<Rightarrow> string" where
  "join_type_error v =
     ''join() argument must be str, bytes, or os.PathLike object, not '' @ [SQ] @ type_name v @ [SQ]"

definition less_type_error :: "pyval \<Rightarrow> string \<Rightarrow> string" where
  "less_type_error v other =
     [SQ] @ ''<'' @ [SQ] @ '' not supported between instances of '' @ [SQ] @ type_name v @ [SQ]
       @ '' and '' @ [SQ] @ other @ [SQ]"

text \<open>The exceptions that leave a function of the program.\<close>

datatype py_exception = TypeError | ValueError

text \<open>
  The range branch of \<open>Tools.read_file\<close> (the \<open>else\<close> of \<open>if should_read_entire_file\<close>),
  on the lines read. It runs inside the \<open>try\<close> of \<open>read_file\<close>: comparing a \<open>str\<close> with
  a number raises \<open>TypeError\<close>, and an f-string that prints an \<open>int\<close> of more than 4300
  digits raises \<open>ValueError\<close>; the handler \<open>except Exception as e\<close> turns either into a
  failed result (\<open>target_file\<close> is a \<open>str\<close> here, so the handler itself cannot raise).
  Every f-string that prints a number is kept as an \<open>option\<close>, evaluated only where the
  source evaluates it. \<open>summary\<close> is computed as the source computes it, and is only used
  under \<open>if summary_parts\<close>.
\<close>

definition read_range :: "string \<Rightarrow> string list \<Rightarrow> pyval \<Rightarrow> pyval \<Rightarrow> ToolResult" where
  "read_range target_file lines start_line_one_indexed end_line_one_indexed_inclusive =
     (let total_lines = int (length lines) in
      (case as_int start_line_one_indexed of
        None \<Rightarrow> failed (''Error reading file '' @ target_file @ '': ''
                  @ less_type_error start_line_one_indexed ''int'')
      | Some s \<Rightarrow>
      if s < 1 then failed ''Start line must be >= 1''
      else
      (case as_int end_line_one_indexed_inclusive of
        None \<Rightarrow> failed (''Error reading file '' @ target_file @ '': ''
                  @ less_type_error end_line_one_indexed_inclusive
                      (type_name start_line_one_indexed))
      | Some e \<Rightarrow>
      if e < s then failed ''End line must be >= start line''
      else
        let start_idx = s - 1;
            end_idx = min e total_lines;
            lines_to_read = end_idx - start_idx
        in
        if lines_to_read > 250 then failed ''Cannot read more than 250 lines at once''
        else
          let requested_lines = py_slice lines start_idx end_idx;
              content = concat requested_lines;
              lines_before = s - 1;
              lines_after = total_lines - e;
              parts_before =
                (if lines_before > 0
                 then map_option (\<lambda>part. [part])
                        (fstring [Some ''Lines 1-'', py_str_int lines_before, Some '' not shown''])
                 else Some []);
              parts_after =
                (if lines_after > 0
                 then map_option (\<lambda>part. [part])
                        (fstring [Some ''Lines '', py_str_int (e + 1), Some ''-'',
                                  py_str_int total_lines, Some '' not shown''])
                 else Some []);
              actual_end = py_min end_line_one_indexed_inclusive e total_lines;
              heading =
                (if e > total_lines
                 then fstring [Some ''Requested to read lines '', py_str start_line_one_indexed,
                               Some ''-'', py_str end_line_one_indexed_inclusive,
                               Some '', but returning lines '', py_str start_line_one_indexed,
                               Some ''-'', py_str_int total_lines,
                               Some ('' (end of file).'' @ [NL])]
                 else fstring [Some ''Contents of '', Some target_file, Some '', lines '',
                               py_str start_line_one_indexed, Some ''-'', py_str actual_end,
                               Some ('':'' @ [NL])])
          in
          (case (parts_before, parts_after, heading) of
             (Some before, Some after, Some result_content) \<Rightarrow>
               (let summary_parts = before @ after;
                    summary = (if summary_parts \<noteq> [] then join '' | '' summary_parts
                               else ''Complete file section shown'');
                    result_content =
                      result_content @ ''```'' @ [NL] @ rstrip content @ [NL] @ ''```'';
                    result_content =
                      (if summary_parts \<noteq> []
                       then result_content @ [NL, NL] @ ''Summary: '' @ summary
                       else result_content)
                in succeeded result_content)
           | _ \<Rightarrow> failed (''Error reading file '' @ target_file @ '': '' @ int_to_str_error)))))"

text \<open>
  \<open>Tools.read_file\<close>. Everything runs inside \<open>try\<close>, so the \<open>TypeError\<close> that
  \<open>os.path.isabs\<close> raises on a \<open>target_file\<close> that is no \<open>str\<close> ends in the last handler
  too. The handlers print \<open>target_file\<close> in an f-string, outside any \<open>try\<close>: when it is
  an \<open>int\<close> of more than 4300 digits the handler raises \<open>ValueError\<close>, and that exception
  leaves \<open>read_file\<close>. So the result is a \<open>ToolResult\<close> (\<open>Inr\<close>) or an exception (\<open>Inl\<close>).
  \<open>explanation\<close> is not used.
\<close>

definition read_file ::
  "filesystem \<Rightarrow> string \<Rightarrow> pyval \<Rightarrow> pyval \<Rightarrow> pyval \<Rightarrow> pyval \<Rightarrow> pyval
     \<Rightarrow> py_exception + ToolResult" where
  "read_file fs workspace_root target_file should_read_entire_file start_line_one_indexed
       end_line_one_indexed_inclusive explanation =
     (case target_file of
        VStr tf \<Rightarrow> Inr
          (let file_path = (if isabs tf then tf else path_join workspace_root tf) in
           if \<not> fs_exists fs file_path then failed (''File not found: '' @ tf)
           else
             (case fs_read fs file_path of
                ReadUnicodeDecodeError \<Rightarrow>
                  failed (''Cannot read file '' @ tf @ '': File contains non-UTF-8 content'')
              | ReadPermissionError \<Rightarrow> failed (''Permission denied reading file: '' @ tf)
              | ReadOtherError msg \<Rightarrow> failed (''Error reading file '' @ tf @ '': '' @ msg)
              | ReadText text \<Rightarrow>
                  (let lines = readlines text;
                       total_lines = int (length lines)
                   in
                   if truthy should_read_entire_file
                   then (case fstring [Some ''Contents of '', Some tf, Some '', lines 1-'',
                                       py_str_int total_lines,
                                       Some ('' (entire file):'' @ [NL] @ ''```'' @ [NL]),
                                       Some (rstrip (concat lines)), Some ([NL] @ ''```'')] of
                           Some result_content \<Rightarrow> succeeded result_content
                         | None \<Rightarrow>
                             failed (''Error reading file '' @ tf @ '': '' @ int_to_str_error))
                   else read_range tf lines start_line_one_indexed
                          end_line_one_indexed_inclusive)))
      | _ \<Rightarrow>
          (case py_str target_file of
             Some shown \<Rightarrow> Inr (failed (''Error reading file '' @ shown @ '': ''
                                   @ fspath_type_error target_file))
           | None \<Rightarrow> Inl ValueError))"

text \<open>
  The body of the \<open>for item in sorted(os.listdir(dir_path))\<close> loop of \<open>Tools.list_dir\<close>, on
  the sorted names; it stops at the first exception, which \<open>os.path.getsize\<close> can raise,
  and the f-string that prints a size of more than 4300 digits. The two icons are written
  as their UTF-8 bytes.
\<close>

definition folder_icon :: string where
  "folder_icon = [CHR 0xF0, CHR 0x9F, CHR 0x93, CHR 0x81]"

definition page_icon :: string where
  "page_icon = [CHR 0xF0, CHR 0x9F, CHR 0x93, CHR 0x84]"

definition size_str :: "nat \<Rightarrow> string option" where
  "size_str sz =
     (if sz < 1024 then fstring [py_str_int (int sz), Some ''B'']
      else if sz < 1024 * 1024 then fstring [py_str_int (int (sz div 1024)), Some ''KB'']
      else fstring [py_str_int (int (sz div (1024 * 1024))), Some ''MB''])"

fun list_items :: "filesystem \<Rightarrow> string \<Rightarrow> string list \<Rightarrow> string list os_outcome" where
  "list_items fs dir_path [] = OsOk []"
| "list_items fs dir_path (item # rest) =
     (let item_path = path_join dir_path item in
      if fs_isdir fs item_path
      then (case list_items fs dir_path rest of
              OsOk items \<Rightarrow> OsOk ((folder_icon @ '' '' @ item @ ''/'') # items)
            | OsPermissionError \<Rightarrow> OsPermissionError
            | OsOtherError msg \<Rightarrow> OsOtherError msg)
      else (case fs_getsize fs item_path of
              OsPermissionError \<Rightarrow> OsPermissionError
            | OsOtherError msg \<Rightarrow> OsOtherError msg
            | OsOk sz \<Rightarrow>
                (case size_str sz of
                   None \<Rightarrow> OsOtherError int_to_str_error
                 | Some shown \<Rightarrow>
                     (case list_items fs dir_path rest of
                        OsOk items \<Rightarrow>
                          OsOk ((page_icon @ '' '' @ item @ '' ('' @ shown @ '')'') # items)
                      | OsPermissionError \<Rightarrow> OsPermissionError
                      | OsOtherError msg \<Rightarrow> OsOtherError msg))))"

text \<open>
  \<open>Tools.list_dir\<close>. \<open>PermissionError\<close> inside the listing is caught by the inner
  \<open>try\<close>, every other exception by the outer \<open>except Exception as e\<close>; so is the
  \<open>TypeError\<close> of \<open>os.path.join\<close> on a path that is no \<open>str\<close>. That handler prints the path
  in an f-string, so it raises \<open>ValueError\<close> itself when the path is an \<open>int\<close> of more than
  4300 digits. \<open>explanation\<close> is not used.
\<close>

definition list_dir ::
  "filesystem \<Rightarrow> string \<Rightarrow> pyval \<Rightarrow> pyval \<Rightarrow> py_exception + ToolResult" where
  "list_dir fs workspace_root relative_workspace_path explanation =
     (case relative_workspace_path of
        VStr rp \<Rightarrow> Inr
          (let dir_path = (if rp = ''.'' then workspace_root else path_join workspace_root rp) in
           if \<not> fs_exists fs dir_path then failed (''Directory not found: '' @ rp)
           else if \<not> fs_isdir fs dir_path then failed (''Path is not a directory: '' @ rp)
           else
             (case fs_listdir fs dir_path of
                OsPermissionError \<Rightarrow> failed (''Permission denied accessing directory: '' @ rp)
              | OsOtherError msg \<Rightarrow> failed (''Error listing directory '' @ rp @ '': '' @ msg)
              | OsOk names \<Rightarrow>
                  (case list_items fs dir_path (sort names) of
                     OsPermissionError \<Rightarrow>
                       failed (''Permission denied accessing directory: '' @ rp)
                   | OsOtherError msg \<Rightarrow>
                       failed (''Error listing directory '' @ rp @ '': '' @ msg)
                   | OsOk items \<Rightarrow>
                       succeeded
                         (if items = [] then ''Directory '' @ [SQ] @ rp @ [SQ] @ '' is empty.''
                          else ''Contents of '' @ [SQ] @ rp @ [SQ] @ '':'' @ [NL]
                               @ join [NL] items))))
      | _ \<Rightarrow>
          (case py_str relative_workspace_path of
             Some shown \<Rightarrow> Inr (failed (''Error listing directory '' @ shown @ '': ''
                                   @ join_type_error relative_workspace_path))
           | None \<Rightarrow> Inl ValueError))"

text \<open>
  \<open>Tools.execute_tool(tool_name, **kwargs)\<close>, called as \<open>execute_tools\<close> calls it:
  \<open>tools.execute_tool(tool_name, **params)\<close>, the tool name by position and the
  parameters as keywords. The keyword arguments are an association list, read with
  \<open>map_of\<close>. Python binds the arguments before the body runs: a keyword \<open>tool_name\<close> or
  \<open>self\<close> names a parameter that the call has already filled by position, and the call
  raises \<open>TypeError\<close> (got multiple values for argument); every other keyword goes into
  \<open>kwargs\<close>. \<open>self.read_file(**kwargs)\<close> and \<open>self.list_dir(**kwargs)\<close> are calls outside
  any \<open>try\<close>: Python raises \<open>TypeError\<close> when a parameter has no keyword or a keyword
  names no parameter, and that exception leaves \<open>execute_tool\<close>, as does one that leaves
  \<open>read_file\<close> or \<open>list_dir\<close>.
\<close>

definition execute_tool_params :: "string list" where
  "execute_tool_params = [''self'', ''tool_name'']"

definition read_file_params :: "string list" where
  "read_file_params = [''target_file'', ''should_read_entire_file'', ''start_line_one_indexed'',
                       ''end_line_one_indexed_inclusive'', ''explanation'']"

definition list_dir_params :: "string list" where
  "list_dir_params = [''relative_workspace_path'', ''explanation'']"

definition call_read_file ::
  "filesystem \<Rightarrow> string \<Rightarrow> (string \<times> pyval) list \<Rightarrow> py_exception + ToolResult" where
  "call_read_file fs workspace_root kwargs =
     (if list_ex (\<lambda>(k, v). k \<notin> set read_file_params) kwargs then Inl TypeError
      else
        (case (map_of kwargs ''target_file'', map_of kwargs ''should_read_entire_file'',
               map_of kwargs ''start_line_one_indexed'',
               map_of kwargs ''end_line_one_indexed_inclusive'', map_of kwargs ''explanation'') of
           (Some a, Some b, Some c, Some d, Some e) \<Rightarrow> read_file fs workspace_root a b c d e
         | _ \<Rightarrow> Inl TypeError))"

definition call_list_dir ::
  "filesystem \<Rightarrow> string \<Rightarrow> (string \<times> pyval) list \<Rightarrow> py_exception + ToolResult" where
  "call_list_dir fs workspace_root kwargs =
     (if list_ex (\<lambda>(k, v). k \<notin> set list_dir_params) kwargs then Inl TypeError
      else
        (case (map_of kwargs ''relative_workspace_path'', map_of kwargs ''explanation'') of
           (Some a, Some b) \<Rightarrow> list_dir fs workspace_root a b
         | _ \<Rightarrow> Inl TypeError))"

definition missing_params :: "string list \<Rightarrow> (string \<times> pyval) list \<Rightarrow> string list" where
  "missing_params required_params kwargs = filter (\<lambda>param. map_of kwargs param = None) required_params"

definition execute_tool ::
  "filesystem \<Rightarrow> string \<Rightarrow> string \<Rightarrow> (string \<times> pyval) list \<Rightarrow> py_exception + ToolResult" where
  "execute_tool fs workspace_root tool_name kwargs =
     (if list_ex (\<lambda>(k, v). k \<in> set execute_tool_params) kwargs then Inl TypeError
      else if tool_name = ''read_file'' then
        (if missing_params read_file_params kwargs \<noteq> []
         then Inr (failed (''Missing required parameters: ''
                     @ join '', '' (missing_params read_file_params kwargs)))
         else call_read_file fs workspace_root kwargs)
      else if tool_name = ''list_dir'' then
        (if missing_params list_dir_params kwargs \<noteq> []
         then Inr (failed (''Missing required parameters: ''
                     @ join '', '' (missing_params list_dir_params kwargs)))
         else call_list_dir fs workspace_root kwargs)
      else Inr (failed (''Unknown tool: '' @ tool_name)))"

section \<open>The context-budget tracker (llm_thinking_mode.py)\<close>

text \<open>
  A message of the history is a dictionary with the keys \<open>role\<close> and \<open>content\<close>.
\<close>

record message =
  role :: string
  content :: string

text \<open>
  \<open>CONTEXT_LIMITS\<close>, and \<open>CONTEXT_LIMITS.get(MODEL_NAME, 32768)\<close>. \<open>MODEL_NAME\<close> is a
  setting of the script ("replace with your actual model name if needed"), so the
  functions below take the model name as an argument; \<open>MODEL_NAME\<close> is the value the
  script ships with.
\<close>

definition CONTEXT_LIMITS :: "(string \<times> nat) list" where
  "CONTEXT_LIMITS = [(''llama-3.2-1b'', 8192), (''llama-3.2-3b'', 32768),
                     (''llama-3.2-8b'', 131072), (''llama-3.2'', 32768)]"

definition max_context_tokens :: "string \<Rightarrow> nat" where
  "max_context_tokens model_name =
     (case map_of CONTEXT_LIMITS model_name of Some n \<Rightarrow> n | None \<Rightarrow> 32768)"

definition MODEL_NAME :: string where
  "MODEL_NAME = ''llama-3.2-3b''"

definition MAX_CONTEXT_TOKENS :: nat where
  "MAX_CONTEXT_TOKENS = max_context_tokens MODEL_NAME"

definition WARNING_THRESHOLD :: real where
  "WARNING_THRESHOLD = 0.8"

definition CRITICAL_THRESHOLD :: real where
  "CRITICAL_THRESHOLD = 0.9"

definition estimate_tokens :: "string \<Rightarrow> nat" where
  "estimate_tokens text = length text div 4"

text \<open>The loop of \<open>count_message_tokens\<close>, with \<open>total_tokens\<close> as its state.\<close>

fun count_message_tokens_loop :: "nat \<Rightarrow> message list \<Rightarrow> nat" where
  "count_message_tokens_loop total_tokens [] = total_tokens"
| "count_message_tokens_loop total_tokens (m # messages) =
     count_message_tokens_loop (total_tokens + (estimate_tokens (content m) + 10)) messages"

definition count_message_tokens :: "message list \<Rightarrow> nat" where
  "count_message_tokens messages = count_message_tokens_loop 0 messages"

text \<open>
  \<open>get_context_usage\<close> returns the tuple
  \<open>(current_tokens, MAX_CONTEXT_TOKENS, usage_percentage, status)\<close>. The percentage is a
  Python \<open>float\<close>, modelled as a real number. Every window of the table, and the default,
  is a power of two, so the quotient \<open>current_tokens / MAX_CONTEXT_TOKENS\<close> is exact, its
  product with 100 is exact as long as \<open>100 * current_tokens < 2^53\<close>, and the two
  thresholds \<open>0.9 * 100\<close> and \<open>0.8 * 100\<close> round to the floats 90.0 and 80.0: on every
  history below \<open>2^53 / 100\<close> tokens the float comparisons decide as the real ones do.
\<close>

definition get_context_usage :: "string \<Rightarrow> message list \<Rightarrow> nat \<times> nat \<times> real \<times> string" where
  "get_context_usage model_name messages =
     (let current_tokens = count_message_tokens messages;
          usage_percentage = (real current_tokens / real (max_context_tokens model_name)) * 100;
          status = (if usage_percentage \<ge> CRITICAL_THRESHOLD * 100 then ''CRITICAL''
                    else if usage_percentage \<ge> WARNING_THRESHOLD * 100 then ''WARNING''
                    else ''OK'')
      in (current_tokens, max_context_tokens model_name, usage_percentage, status))"

text \<open>The components of that tuple.\<close>

definition usage_percentage_of :: "nat \<times> nat \<times> real \<times> string \<Rightarrow> real" where
  "usage_percentage_of u = fst (snd (snd u))"

definition status_of :: "nat \<times> nat \<times> real \<times> string \<Rightarrow> string" where
  "status_of u = snd (snd (snd u))"

section \<open>The thinking/answer splitter (llm_thinking_mode.py)\<close>

text \<open>
  \<open>find_sub pat s\<close> is the text before and the text after the first occurrence of \<open>pat\<close>
  in \<open>s\<close>. It is what a lazy \<open>(.*?)\<close> followed by the literal \<open>pat\<close> matches under
  \<open>re.DOTALL\<close>, and what \<open>s.split(pat, 1)\<close> returns when it returns two parts.
\<close>

fun find_sub :: "string \<Rightarrow> string \<Rightarrow> (string \<times> string) option" where
  "find_sub pat [] = (if pat = [] then Some ([], []) else None)"
| "find_sub pat (c # cs) =
     (if prefix pat (c # cs) then Some ([], drop (length pat) (c # cs))
      else (case find_sub pat cs of None \<Rightarrow> None | Some (a, b) \<Rightarrow> Some (c # a, b)))"

definition OPEN_TAG :: string where
  "OPEN_TAG = ''<thinking>''"

definition CLOSE_TAG :: string where
  "CLOSE_TAG = ''</thinking>''"

text \<open>
  The pattern \<open><thinking>(.*?)</thinking>\<close> with \<open>re.DOTALL\<close>, matched at the start of \<open>s\<close>:
  group 1 and the text after the match.
\<close>

definition match_thinking :: "string \<Rightarrow> (string \<times> string) option" where
  "match_thinking s =
     (if prefix OPEN_TAG s then find_sub CLOSE_TAG (drop (length OPEN_TAG) s) else None)"

text \<open>\<open>re.search\<close> with that pattern: the match at the leftmost position that has one.\<close>

fun search_thinking :: "string \<Rightarrow> (string \<times> string) option" where
  "search_thinking [] = None"
| "search_thinking (c # cs) =
     (case match_thinking (c # cs) of
        Some m \<Rightarrow> Some m
      | None \<Rightarrow> search_thinking cs)"

text \<open>Every match ends before the end of the text reached, so the loop of \<open>re.sub\<close> below ends.\<close>

lemma find_sub_Some: "find_sub pat s = Some (a, b) \<Longrightarrow> s = a @ pat @ b"
proof (induction s arbitrary: a)
  case Nil
  then show ?case by (simp split: if_splits)
next
  case (Cons c cs)
  show ?case
  proof (cases "prefix pat (c # cs)")
    case True
    with Cons.prems show ?thesis
      by (auto simp: prefix_def)
  next
    case False
    with Cons.prems obtain a' where "find_sub pat cs = Some (a', b)" "a = c # a'"
      by (auto split: option.splits)
    with Cons.IH show ?thesis by simp
  qed
qed

lemma match_thinking_shorter: "match_thinking s = Some (g, r) \<Longrightarrow> length r < length s"
  by (auto simp: match_thinking_def OPEN_TAG_def prefix_def dest!: find_sub_Some split: if_splits)

text \<open>
  \<open>re.sub\<close> with the pattern \<open><thinking>.*?</thinking>\s*\<close>, \<open>re.DOTALL\<close> and the empty
  replacement: every match, from left to right and without overlap, is deleted together
  with the whitespace after it (\<open>\s*\<close> is greedy, and what follows it can be anything).
\<close>

function sub_thinking :: "string \<Rightarrow> string" where
  "sub_thinking [] = []"
| "sub_thinking (c # cs) =
     (case match_thinking (c # cs) of
        Some (g, r) \<Rightarrow> sub_thinking (dropWhile is_space r)
      | None \<Rightarrow> c # sub_thinking cs)"
  by pat_completeness auto
termination
proof (relation "measure length")
  fix c cs x2 x y
  assume "match_thinking (c # cs) = Some x2" "(x, y) = x2"
  then have "length y < length (c # cs)"
    using match_thinking_shorter[of "c # cs" x y] by simp
  moreover have "length (dropWhile is_space y) \<le> length y"
    by (rule length_dropWhile_le)
  ultimately show "(dropWhile is_space y, c # cs) \<in> measure length"
    by simp
qed simp_all

declare sub_thinking.simps(2) [simp del]

text \<open>
  \<open>parse_thinking_response\<close>. The fallback \<open>response.split('\n\n', 1)\<close> has two parts
  exactly when the response has a blank-line boundary.
\<close>

definition parse_thinking_response :: "string \<Rightarrow> string \<times> string" where
  "parse_thinking_response response =
     (case search_thinking response of
        Some (g, r) \<Rightarrow> (strip g, strip (sub_thinking response))
      | None \<Rightarrow>
          (case find_sub [NL, NL] response of
             Some (a, b) \<Rightarrow> (a, b)
           | None \<Rightarrow> (''No explicit thinking process found'', response)))"

section \<open>The tool-call extractor (llm_thinking_mode.py)\<close>

subsection \<open>Character classes and conversions\<close>

text \<open>\<open>\w\<close>, \<open>\d\<close> and \<open>str.isdigit\<close> on the code points 0..255.\<close>

definition is_word :: "char \<Rightarrow> bool" where
  "is_word c =
     ((CHR ''a'' \<le> c \<and> c \<le> CHR ''z'') \<or> (CHR ''A'' \<le> c \<and> c \<le> CHR ''Z'')
      \<or> (CHR ''0'' \<le> c \<and> c \<le> CHR ''9'') \<or> c = CHR ''_''
      \<or> c \<in> {CHR 0xAA, CHR 0xB2, CHR 0xB3, CHR 0xB5, CHR 0xB9, CHR 0xBA, CHR 0xBC, CHR 0xBD,
               CHR 0xBE}
      \<or> (CHR 0xC0 \<le> c \<and> c \<noteq> CHR 0xD7 \<and> c \<noteq> CHR 0xF7))"

definition is_digit :: "char \<Rightarrow> bool" where
  "is_digit c = (CHR ''0'' \<le> c \<and> c \<le> CHR ''9'')"

definition py_isdigit :: "char \<Rightarrow> bool" where
  "py_isdigit c = (is_digit c \<or> c \<in> {CHR 0xB2, CHR 0xB3, CHR 0xB9})"

definition is_quote :: "char \<Rightarrow> bool" where
  "is_quote c = (c = DQ \<or> c = SQ)"

text \<open>
  Matching under \<open>re.IGNORECASE\<close>, and comparing \<open>s.lower()\<close> with a pattern, for a pattern
  of lower-case ASCII letters and other ASCII characters: a character goes with a letter of
  the pattern when it is that letter or its upper case (on the code points 0..255 nothing
  else lowers to an ASCII letter).
\<close>

definition ci_char :: "char \<Rightarrow> char \<Rightarrow> bool" where
  "ci_char p t =
     (t = p \<or> (CHR ''a'' \<le> p \<and> p \<le> CHR ''z'' \<and> (of_char t :: nat) + 32 = of_char p))"

fun ci_prefix :: "string \<Rightarrow> string \<Rightarrow> bool" where
  "ci_prefix [] s = True"
| "ci_prefix (p # ps) [] = False"
| "ci_prefix (p # ps) (c # cs) = (ci_char p c \<and> ci_prefix ps cs)"

definition lower_is :: "string \<Rightarrow> string \<Rightarrow> bool" where
  "lower_is s pat = list_all2 ci_char pat s"

text \<open>
  \<open>int(ds)\<close> on a non-empty string of the digits 0 to 9: \<open>int_of_digits\<close> is the number
  the digits denote, and \<open>py_int\<close> is the call, which raises \<open>ValueError\<close> (\<open>None\<close>) when
  the string has more than 4300 digits, leading zeros counted.
\<close>

definition digit_value :: "char \<Rightarrow> nat" where
  "digit_value c = of_char c - 48"

definition int_of_digits :: "string \<Rightarrow> int" where
  "int_of_digits ds = int (foldl (\<lambda>n c. 10 * n + digit_value c) 0 ds)"

definition py_int :: "string \<Rightarrow> int option" where
  "py_int ds = (if int_max_str_digits < length ds then None else Some (int_of_digits ds))"

subsection \<open>The patterns\<close>

text \<open>
  Each pattern is a function that matches at the start of its argument, as the
  backtracking matcher of \<open>re\<close> does. In these patterns a greedy repetition is always
  followed by a character outside its class, so only the longest run can lead to a match;
  the one exception, \<open>\s*\n\<close> in the code-block pattern, is written out below.
  \<open>re_search\<close> is \<open>re.search\<close>: the match at the leftmost position that has one.
\<close>

fun re_search :: "(string \<Rightarrow> 'a option) \<Rightarrow> string \<Rightarrow> 'a option" where
  "re_search m [] = m []"
| "re_search m (c # cs) = (case m (c # cs) of Some x \<Rightarrow> Some x | None \<Rightarrow> re_search m cs)"

text \<open>
  \<open>tool_pattern = TOOL:(\w+)\((.*?)\)\<close> with \<open>re.DOTALL\<close>: the two groups and the text
  after the match. The lazy group ends at the first closing parenthesis.
\<close>

definition match_tool :: "string \<Rightarrow> ((string \<times> string) \<times> string) option" where
  "match_tool s =
     (if prefix ''TOOL:'' s then
        (let r = drop 5 s; tool_name = takeWhile is_word r in
         (case dropWhile is_word r of
            [] \<Rightarrow> None
          | c # r' \<Rightarrow>
              if tool_name \<noteq> [] \<and> c = CHR ''(''
              then (case find_sub '')'' r' of
                      None \<Rightarrow> None
                    | Some (params_str, rest) \<Rightarrow> Some ((tool_name, params_str), rest))
              else None))
      else None)"

lemma match_tool_Some:
  "match_tool s = Some ((n, a), r) \<Longrightarrow> s = ''TOOL:'' @ n @ ''('' @ a @ '')'' @ r"
proof -
  assume m: "match_tool s = Some ((n, a), r)"
  then have p: "prefix ''TOOL:'' s"
    by (simp add: match_tool_def split: if_splits)
  then obtain t where s: "s = ''TOOL:'' @ t"
    by (auto simp: prefix_def)
  from m s obtain r' where d: "dropWhile is_word t = CHR ''('' # r'" and n: "n = takeWhile is_word t"
      and f: "find_sub '')'' r' = Some (a, r)"
    by (auto simp: match_tool_def Let_def split: list.splits if_splits option.splits)
  have "t = takeWhile is_word t @ dropWhile is_word t"
    by simp
  with d n have "t = n @ CHR ''('' # r'"
    by simp
  with find_sub_Some[OF f] s show ?thesis
    by simp
qed

text \<open>\<open>re.findall(tool_pattern, text, re.DOTALL)\<close>: the matches from left to right, each
  search starting where the last match ended.\<close>

function findall_tool :: "string \<Rightarrow> (string \<times> string) list" where
  "findall_tool [] = []"
| "findall_tool (c # cs) =
     (case match_tool (c # cs) of
        Some (m, rest) \<Rightarrow> m # findall_tool rest
      | None \<Rightarrow> findall_tool cs)"
  by pat_completeness auto
termination
proof (relation "measure length")
  fix c cs x2 x y
  assume "match_tool (c # cs) = Some x2" "(x, y) = x2"
  then have "match_tool (c # cs) = Some ((fst x, snd x), y)"
    by simp
  from match_tool_Some[OF this]
  have "length (c # cs) = length (''TOOL:'' @ fst x @ ''('' @ snd x @ '')'' @ y)"
    by simp
  then show "(y, c # cs) \<in> measure length"
    by simp
qed simp_all

declare findall_tool.simps(2) [simp del]

text \<open>
  \<open>code_block_pattern = ```python\s*\n(.*?)\n```\<close> with \<open>re.DOTALL\<close>. The greedy \<open>\s*\<close> takes
  the whole run of whitespace after \<open>```python\<close> and then gives characters back until a
  newline follows it and the rest of the pattern matches: \<open>after_newlines\<close> lists the texts
  after each newline of that run, and the last one that contains \<open>\n```\<close> is taken.
\<close>

fun after_newlines :: "string \<Rightarrow> string list" where
  "after_newlines [] = []"
| "after_newlines (c # cs) =
     (if is_space c then (if c = NL then [cs] else []) @ after_newlines cs else [])"

fun first_match :: "('a \<Rightarrow> 'b option) \<Rightarrow> 'a list \<Rightarrow> 'b option" where
  "first_match f [] = None"
| "first_match f (x # xs) = (case f x of Some y \<Rightarrow> Some y | None \<Rightarrow> first_match f xs)"

definition match_code_block :: "string \<Rightarrow> (string \<times> string) option" where
  "match_code_block s =
     (if prefix ''```python'' s
      then first_match (find_sub (NL # ''```'')) (rev (after_newlines (drop 9 s)))
      else None)"

lemma after_newlines_suffix: "t \<in> set (after_newlines s) \<Longrightarrow> \<exists>u. s = u @ t \<and> u \<noteq> []"
proof (induction s)
  case Nil
  then show ?case by simp
next
  case (Cons c cs)
  from Cons.prems have "t = cs \<or> t \<in> set (after_newlines cs)"
    by (auto split: if_splits)
  then show ?case
  proof
    assume "t = cs"
    then show ?thesis by (intro exI[of _ "[c]"]) simp
  next
    assume "t \<in> set (after_newlines cs)"
    with Cons.IH obtain u where "cs = u @ t" by blast
    then show ?thesis by (intro exI[of _ "c # u"]) simp
  qed
qed

lemma first_match_Some: "first_match f xs = Some y \<Longrightarrow> \<exists>x \<in> set xs. f x = Some y"
  by (induction xs) (auto split: option.splits)

lemma match_code_block_Some:
  "match_code_block s = Some (g, r) \<Longrightarrow> \<exists>u. s = u @ g @ NL # ''```'' @ r \<and> u \<noteq> []"
proof -
  assume m: "match_code_block s = Some (g, r)"
  then obtain t where t: "t \<in> set (after_newlines (drop 9 s))"
      and f: "find_sub (NL # ''```'') t = Some (g, r)"
    by (auto simp: match_code_block_def split: if_splits dest!: first_match_Some)
  from after_newlines_suffix[OF t] obtain u where u: "drop 9 s = u @ t" by blast
  have "s = take 9 s @ drop 9 s" by simp
  with u find_sub_Some[OF f] have "s = (take 9 s @ u @ g) @ NL # ''```'' @ r"
    by simp
  moreover from m have "take 9 s \<noteq> []"
    by (auto simp: match_code_block_def prefix_def split: if_splits)
  ultimately show ?thesis
    by (intro exI[of _ "take 9 s @ u"]) simp
qed

text \<open>\<open>re.findall(code_block_pattern, response, re.DOTALL)\<close>: the contents of the blocks.\<close>

function findall_code_blocks :: "string \<Rightarrow> string list" where
  "findall_code_blocks [] = []"
| "findall_code_blocks (c # cs) =
     (case match_code_block (c # cs) of
        Some (code_block, rest) \<Rightarrow> code_block # findall_code_blocks rest
      | None \<Rightarrow> findall_code_blocks cs)"
  by pat_completeness auto
termination
proof (relation "measure length")
  fix c cs x2 x y
  assume "match_code_block (c # cs) = Some x2" "(x, y) = x2"
  then have "match_code_block (c # cs) = Some (x, y)"
    by simp
  from match_code_block_Some[OF this] obtain u where "c # cs = u @ x @ NL # ''```'' @ y"
    by blast
  then have "length (c # cs) = length (u @ x @ NL # ''```'' @ y)"
    by simp
  then show "(y, c # cs) \<in> measure length"
    by simp
qed simp_all

declare findall_code_blocks.simps(2) [simp del]

text \<open>\<open>key\s*=\s*\<close>: the text after it.\<close>

definition match_key :: "string \<Rightarrow> string \<Rightarrow> string option" where
  "match_key key s =
     (if prefix key s
      then (case dropWhile is_space (drop (length key) s) of
              [] \<Rightarrow> None
            | c # r \<Rightarrow> if c = CHR ''='' then Some (dropWhile is_space r) else None)
      else None)"

text \<open>
  \<open>key\s*=\s*["\']([^"\']+)["\']\<close>, and with \<open>*\<close> in place of \<open>+\<close> when \<open>allow_empty\<close>: group 1.
  Either quote opens and either quote closes.
\<close>

definition match_quoted :: "string \<Rightarrow> bool \<Rightarrow> string \<Rightarrow> string option" where
  "match_quoted key allow_empty s =
     (case match_key key s of
        None \<Rightarrow> None
      | Some r \<Rightarrow>
          (case r of
             [] \<Rightarrow> None
           | q # r' \<Rightarrow>
               if is_quote q \<and> dropWhile (\<lambda>c. \<not> is_quote c) r' \<noteq> []
                  \<and> (allow_empty \<or> takeWhile (\<lambda>c. \<not> is_quote c) r' \<noteq> [])
               then Some (takeWhile (\<lambda>c. \<not> is_quote c) r')
               else None))"

text \<open>\<open>key\s*=\s*([^,\s)]+)\<close>: group 1.\<close>

definition match_bare :: "string \<Rightarrow> string \<Rightarrow> string option" where
  "match_bare key s =
     (case match_key key s of
        None \<Rightarrow> None
      | Some r \<Rightarrow>
          (let v = takeWhile (\<lambda>c. c \<noteq> CHR '','' \<and> \<not> is_space c \<and> c \<noteq> CHR '')'') r in
           if v \<noteq> [] then Some v else None))"

text \<open>\<open>key\s*=\s*(\d+)\<close>: group 1, a non-empty string of digits.\<close>

definition match_digits :: "string \<Rightarrow> string \<Rightarrow> string option" where
  "match_digits key s =
     (case match_key key s of
        None \<Rightarrow> None
      | Some r \<Rightarrow>
          (let ds = takeWhile is_digit r in
           if ds \<noteq> [] then Some ds else None))"

text \<open>\<open>should_read_entire_file\s*=\s*(true|false)\<close> with \<open>re.IGNORECASE\<close>:
  \<open>group(1).lower() == 'true'\<close>.\<close>

definition match_should_read :: "string \<Rightarrow> bool option" where
  "match_should_read s =
     (if ci_prefix ''should_read_entire_file'' s
      then (case dropWhile is_space (drop (length ''should_read_entire_file'') s) of
              [] \<Rightarrow> None
            | c # r \<Rightarrow>
                if c = CHR ''='' then
                  (if ci_prefix ''true'' (dropWhile is_space r) then Some True
                   else if ci_prefix ''false'' (dropWhile is_space r) then Some False
                   else None)
                else None)
      else None)"

text \<open>
  \<open>(\w+)\s*=\s*([^,]+)\<close>: the two groups and the text after the match. Whitespace is no
  comma, so when nothing but a comma or the end follows the whitespace after \<open>=\<close>, the
  matcher gives the last whitespace character back from \<open>\s*\<close> to the group.
\<close>

definition match_pair :: "string \<Rightarrow> ((string \<times> string) \<times> string) option" where
  "match_pair s =
     (if takeWhile is_word s = [] then None
      else
        (case dropWhile is_space (dropWhile is_word s) of
           [] \<Rightarrow> None
         | c # r \<Rightarrow>
             if c = CHR ''='' then
               (if takeWhile (\<lambda>c. c \<noteq> CHR '','') (dropWhile is_space r) \<noteq> []
                then Some ((takeWhile is_word s,
                            takeWhile (\<lambda>c. c \<noteq> CHR '','') (dropWhile is_space r)),
                           dropWhile (\<lambda>c. c \<noteq> CHR '','') (dropWhile is_space r))
                else if takeWhile is_space r \<noteq> []
                then Some ((takeWhile is_word s, [last (takeWhile is_space r)]),
                           dropWhile is_space r)
                else None)
             else None))"

lemma match_pair_shorter: "match_pair s = Some (m, r) \<Longrightarrow> length r < length s"
proof -
  assume m: "match_pair s = Some (m, r)"
  then have k: "takeWhile is_word s \<noteq> []"
    by (auto simp: match_pair_def)
  have "length s = length (takeWhile is_word s @ dropWhile is_word s)"
    by simp
  with k have "length (dropWhile is_word s) < length s"
    by (simp del: takeWhile_dropWhile_id)
  moreover from m obtain t where d: "dropWhile is_space (dropWhile is_word s) = CHR ''='' # t"
      and r: "r = dropWhile (\<lambda>c. c \<noteq> CHR '','') (dropWhile is_space t) \<or> r = dropWhile is_space t"
    by (auto simp: match_pair_def split: list.splits if_splits)
  have "length (dropWhile is_space (dropWhile is_word s)) \<le> length (dropWhile is_word s)"
    by (rule length_dropWhile_le)
  with d have "length t < length (dropWhile is_word s)"
    by simp
  moreover have "length r \<le> length t"
    using r length_dropWhile_le[of "\<lambda>c. c \<noteq> CHR '',''" "dropWhile is_space t"]
      length_dropWhile_le[of is_space t]
    by auto
  ultimately show ?thesis
    by simp
qed

function findall_pairs :: "string \<Rightarrow> (string \<times> string) list" where
  "findall_pairs [] = []"
| "findall_pairs (c # cs) =
     (case match_pair (c # cs) of
        Some (m, rest) \<Rightarrow> m # findall_pairs rest
      | None \<Rightarrow> findall_pairs cs)"
  by pat_completeness auto
termination
proof (relation "measure length")
  fix c cs x2 x y
  assume "match_pair (c # cs) = Some x2" "(x, y) = x2"
  then have "match_pair (c # cs) = Some (x, y)"
    by simp
  from match_pair_shorter[OF this] show "(y, c # cs) \<in> measure length"
    by simp
qed simp_all

declare findall_pairs.simps(2) [simp del]

subsection \<open>From a match to a tool call\<close>

text \<open>
  A tool call is the pair \<open>(tool_name, params)\<close>; \<open>params\<close> is a dictionary, kept as an
  association list in insertion order. \<open>dict_set\<close> is \<open>params[key] = value\<close>.
\<close>

type_synonym tool_call = "string \<times> (string \<times> pyval) list"

fun dict_set :: "string \<Rightarrow> pyval \<Rightarrow> (string \<times> pyval) list \<Rightarrow> (string \<times> pyval) list" where
  "dict_set k v [] = [(k, v)]"
| "dict_set k v (p # ps) = (if fst p = k then (k, v) # ps else p # dict_set k v ps)"

text \<open>
  The identity \<open>call_id\<close> of a call is a string. For \<open>read_file\<close> and \<open>list_dir\<close> it is
  kept as that string. For any other tool it is the tool name, a colon and
  \<open>str(sorted(params.items()))\<close>: \<open>str\<close> is injective on such lists and a tool name has no
  colon, so two of these strings are equal exactly when the names and the sorted items
  are, and none equals an identity of \<open>read_file\<close> or \<open>list_dir\<close>; \<open>IdGeneric\<close> keeps the
  name and the sorted items.
\<close>

datatype call_id = IdText string | IdGeneric string "(string \<times> pyval) list"

text \<open>
  The \<open>read_file\<close> branch of the loop body: the identity and the parameters, or \<open>None\<close>
  when the call is dropped: by \<open>continue\<close>, with a required parameter missing, or by the
  \<open>except Exception\<close> of the loop body when \<open>int(...)\<close> raises \<open>ValueError\<close> on a line
  number of more than 4300 digits, or the f-string of \<open>call_id\<close> does when it prints one.
\<close>

definition parse_read_file :: "string \<Rightarrow> (call_id \<times> tool_call) option" where
  "parse_read_file params_str =
     (case (case re_search (match_quoted ''target_file'' False) params_str of
              Some g \<Rightarrow> Some g
            | None \<Rightarrow> re_search (match_bare ''target_file'') params_str) of
        None \<Rightarrow> None
      | Some g \<Rightarrow>
          (let target_file = strip g;
               should_read_entire_file =
                 (case re_search match_should_read params_str of Some b \<Rightarrow> b | None \<Rightarrow> False);
               start_line_one_indexed =
                 (case re_search (match_digits ''start_line_one_indexed'') params_str of
                    Some ds \<Rightarrow> py_int ds | None \<Rightarrow> Some 1);
               end_line_one_indexed_inclusive =
                 (case re_search (match_digits ''end_line_one_indexed_inclusive'') params_str of
                    Some ds \<Rightarrow> py_int ds | None \<Rightarrow> Some 50)
           in
           (case (start_line_one_indexed, end_line_one_indexed_inclusive) of
              (Some start_line, Some end_line) \<Rightarrow>
                (let explanation =
                       (case re_search (match_quoted ''explanation'' False) params_str of
                          Some x \<Rightarrow> x | None \<Rightarrow> ''Reading file '' @ target_file);
                     params = [(''target_file'', VStr target_file),
                               (''should_read_entire_file'', VBool should_read_entire_file),
                               (''start_line_one_indexed'', VInt start_line),
                               (''end_line_one_indexed_inclusive'', VInt end_line),
                               (''explanation'', VStr explanation)];
                     call_id = fstring [Some ''read_file:'', Some target_file, Some '':'',
                                        py_str_int start_line, Some '':'', py_str_int end_line]
                 in (case call_id of
                       None \<Rightarrow> None
                     | Some cid \<Rightarrow>
                         if list_all (\<lambda>param. map_of params param \<noteq> None) read_file_params
                         then Some (IdText cid, (''read_file'', params))
                         else None))
            | _ \<Rightarrow> None)))"

text \<open>The \<open>list_dir\<close> branch.\<close>

definition parse_list_dir :: "string \<Rightarrow> (call_id \<times> tool_call) option" where
  "parse_list_dir params_str =
     (let relative_workspace_path =
            (case re_search (match_quoted ''relative_workspace_path'' True) params_str of
               Some p \<Rightarrow> p | None \<Rightarrow> ''.'');
          explanation =
            (case re_search (match_quoted ''explanation'' False) params_str of
               Some x \<Rightarrow> x | None \<Rightarrow> ''Listing directory '' @ relative_workspace_path);
          params = [(''relative_workspace_path'', VStr relative_workspace_path),
                    (''explanation'', VStr explanation)]
      in Some (IdText (''list_dir:'' @ relative_workspace_path), (''list_dir'', params)))"

text \<open>
  The branch for any other tool. \<open>coerce_value\<close> is the \<open>if\<close> chain on one value; it is
  \<open>None\<close> when \<open>int(value)\<close> raises \<open>ValueError\<close> (\<open>str.isdigit\<close> accepts the superscript
  digits, \<open>int\<close> does not, and \<open>int\<close> refuses more than 4300 digits), and then the
  \<open>except\<close> of the loop body drops the call; so it does when \<open>str(sorted(params.items()))\<close>
  raises in \<open>call_id\<close>, on a number that cannot be printed.
\<close>

definition coerce_value :: "string \<Rightarrow> pyval option" where
  "coerce_value raw =
     (let v = strip raw in
      if lower_is v ''true'' then Some (VBool True)
      else if lower_is v ''false'' then Some (VBool False)
      else if v \<noteq> [] \<and> hd v = DQ \<and> last v = DQ then Some (VStr (butlast (tl v)))
      else if v \<noteq> [] \<and> hd v = SQ \<and> last v = SQ then Some (VStr (butlast (tl v)))
      else if v \<noteq> [] \<and> list_all py_isdigit v
      then (if list_all is_digit v then map_option VInt (py_int v) else None)
      else Some (VStr v))"

fun coerce_pairs ::
  "(string \<times> string) list \<Rightarrow> (string \<times> pyval) list \<Rightarrow> (string \<times> pyval) list option" where
  "coerce_pairs [] params = Some params"
| "coerce_pairs ((k, raw) # param_pairs) params =
     (case coerce_value raw of
        None \<Rightarrow> None
      | Some v \<Rightarrow> coerce_pairs param_pairs (dict_set k v params))"

definition parse_generic :: "string \<Rightarrow> string \<Rightarrow> (call_id \<times> tool_call) option" where
  "parse_generic tool_name params_str =
     (case coerce_pairs (findall_pairs params_str) [] of
        None \<Rightarrow> None
      | Some params \<Rightarrow>
          if list_ex (\<lambda>(k, v). py_str v = None) params then None
          else Some (IdGeneric tool_name (sort_key fst params), (tool_name, params)))"

definition parse_call :: "string \<times> string \<Rightarrow> (call_id \<times> tool_call) option" where
  "parse_call m =
     (if fst m = ''read_file'' then parse_read_file (snd m)
      else if fst m = ''list_dir'' then parse_list_dir (snd m)
      else parse_generic (fst m) (snd m))"

text \<open>
  The loop \<open>for tool_name, params_str in matches\<close>, with \<open>seen_calls\<close> as its state; the
  result is \<open>tool_calls\<close> in the order the calls were appended.
\<close>

fun collect_calls :: "(string \<times> string) list \<Rightarrow> call_id list \<Rightarrow> tool_call list" where
  "collect_calls [] seen_calls = []"
| "collect_calls (m # matches) seen_calls =
     (case parse_call m of
        None \<Rightarrow> collect_calls matches seen_calls
      | Some (cid, call) \<Rightarrow>
          if cid \<in> set seen_calls then collect_calls matches seen_calls
          else call # collect_calls matches (cid # seen_calls))"

text \<open>
  \<open>parse_tool_calls\<close>: the matches in the whole response, then the matches in every code
  block of the response, then the loop.
\<close>

definition all_matches :: "string \<Rightarrow> (string \<times> string) list" where
  "all_matches response =
     findall_tool response @ concat (map findall_tool (findall_code_blocks response))"

definition parse_tool_calls :: "string \<Rightarrow> tool_call list" where
  "parse_tool_calls response = collect_calls (all_matches response) []"

text \<open>
  \<open>execute_tools\<close>: the loop \<open>for tool_name, params in tool_calls\<close> calls
  \<open>tools.execute_tool(tool_name, **params)\<close> outside any \<open>try\<close> and appends the result, so
  an exception of the dispatcher leaves \<open>execute_tools\<close>. \<open>tools\<close> is the tool set of the
  module, on its workspace root.
\<close>

fun execute_tools ::
  "filesystem \<Rightarrow> string \<Rightarrow> tool_call list \<Rightarrow> py_exception + ToolResult list" where
  "execute_tools fs workspace_root [] = Inr []"
| "execute_tools fs workspace_root ((tool_name, params) # tool_calls) =
     (case execute_tool fs workspace_root tool_name params of
        Inl exn \<Rightarrow> Inl exn
      | Inr result \<Rightarrow>
          (case execute_tools fs workspace_root tool_calls of
             Inl exn \<Rightarrow> Inl exn
           | Inr results \<Rightarrow> Inr (result # results)))"

text \<open>
  The matches of \<open>tool_pattern\<close> at every position of a text, overlapping ones included:
  every match that \<open>re.findall\<close> finds in a part of the text is among them.
\<close>

fun matches_anywhere :: "string \<Rightarrow> (string \<times> string) list" where
  "matches_anywhere [] = []"
| "matches_anywhere (c # cs) =
     (case match_tool (c # cs) of Some (m, r) \<Rightarrow> [m] | None \<Rightarrow> []) @ matches_anywhere cs"

section \<open>Example environments\<close>

text \<open>
  A file system holding one text file at \<open>path\<close>, and one holding one empty directory;
  \<open>text_of_lines n\<close> is a text of \<open>n\<close> lines.
\<close>

definition single_file_fs :: "string \<Rightarrow> string \<Rightarrow> filesystem" where
  "single_file_fs path text =
     \<lparr>fs_exists = (\<lambda>p. p = path),
      fs_isdir = (\<lambda>p. False),
      fs_read = (\<lambda>p. if p = path then ReadText text
                     else ReadOtherError ''[Errno 2] No such file or directory''),
      fs_listdir = (\<lambda>p. OsOtherError ''[Errno 20] Not a directory''),
      fs_getsize = (\<lambda>p. if p = path then OsOk (length text)
                        else OsOtherError ''[Errno 2] No such file or directory'')\<rparr>"

definition empty_dir_fs :: "string \<Rightarrow> filesystem" where
  "empty_dir_fs path =
     \<lparr>fs_exists = (\<lambda>p. p = path),
      fs_isdir = (\<lambda>p. p = path),
      fs_read = (\<lambda>p. ReadOtherError ''[Errno 21] Is a directory''),
      fs_listdir = (\<lambda>p. if p = path then OsOk []
                        else OsOtherError ''[Errno 2] No such file or directory''),
      fs_getsize = (\<lambda>p. OsOk 4096)\<rparr>"

definition text_of_lines :: "nat \<Rightarrow> string" where
  "text_of_lines n = concat (replicate n [CHR ''x'', NL])"

text \<open>A history of one user message whose content has \<open>n\<close> characters.\<close>

definition history_of_chars :: "nat \<Rightarrow> message list" where
  "history_of_chars n = [\<lparr>role = ''user'', content = replicate n (CHR ''a'')\<rparr>]"

section \<open>The documented call syntax\<close>

text \<open>
  A \<open>read_file\<close> call written as the system prompt of the script shows it:
  \<open>TOOL:read_file(target_file="F", should_read_entire_file=B, start_line_one_indexed=S,
  end_line_one_indexed_inclusive=E, explanation="X")\<close>. \<open>read_file_args\<close> is the text between
  the parentheses.
\<close>

definition read_file_args :: "string \<Rightarrow> bool \<Rightarrow> nat \<Rightarrow> nat \<Rightarrow> string \<Rightarrow> string" where
  "read_file_args tf b s e ex =
     ''target_file='' @ [DQ] @ tf @ [DQ] @ '', should_read_entire_file=''
       @ (if b then ''true'' else ''false'') @ '', start_line_one_indexed='' @ str_nat s
       @ '', end_line_one_indexed_inclusive='' @ str_nat e @ '', explanation='' @ [DQ] @ ex @ [DQ]"

definition read_file_call :: "string \<Rightarrow> bool \<Rightarrow> nat \<Rightarrow> nat \<Rightarrow> string \<Rightarrow> string" where
  "read_file_call tf b s e ex = ''TOOL:read_file('' @ read_file_args tf b s e ex @ '')''"

text \<open>
  A string value that the call syntax carries as it is: not empty, without a quote of
  either kind and without a closing parenthesis (the extractor has no escapes), and
  without the marker \<open>TOOL:\<close>, which would start a call of its own.
\<close>

definition plain_value :: "string \<Rightarrow> bool" where
  "plain_value v =
     (v \<noteq> [] \<and> DQ \<notin> set v \<and> SQ \<notin> set v \<and> CHR '')'' \<notin> set v \<and> \<not> sublist ''TOOL:'' v)"

section \<open>Properties of the file-system tool set\<close>

lemma readlines_text_of_lines: "readlines (text_of_lines n) = replicate n [CHR ''x'', NL]"
  by (induction n) (simp_all add: text_of_lines_def NL_def)

lemma length_readlines_text_of_lines: "length (readlines (text_of_lines n)) = n"
  by (simp add: readlines_text_of_lines)

lemma failed_neq_succeeded: "failed m \<noteq> succeeded c"
  by (simp add: failed_def succeeded_def)

lemma str_int_small [simp]:
  "str_int 1 = ''1''" "str_int 3 = ''3''" "str_int 4 = ''4''" "str_int 5 = ''5''"
  "str_int 50 = ''50''" "str_int 2000 = ''2000''"
  by (simp_all add: str_int_def str_nat.simps digit_char_def)

subsection \<open>The digit limit of the conversions\<close>

text \<open>A number has at least one digit, and a larger number has no fewer digits.\<close>

lemma length_str_nat_pos: "0 < length (str_nat n)"
  by (subst str_nat.simps) simp

lemma length_str_nat_mono: "n \<le> m \<Longrightarrow> length (str_nat n) \<le> length (str_nat m)"
proof (induction n arbitrary: m rule: str_nat.induct)
  case (1 n)
  show ?case
  proof (cases "n < 10")
    case True
    then have "length (str_nat n) = 1"
      by (subst str_nat.simps) simp
    with length_str_nat_pos[of m] show ?thesis
      by (simp add: Suc_le_eq)
  next
    case False
    with "1.prems" have m: "\<not> m < 10" and le: "n div 10 \<le> m div 10"
      by (simp_all add: div_le_mono)
    have "length (str_nat n) = Suc (length (str_nat (n div 10)))"
      using False by (subst str_nat.simps) simp
    moreover have "length (str_nat m) = Suc (length (str_nat (m div 10)))"
      using m by (subst str_nat.simps) simp
    ultimately show ?thesis
      using "1.IH"[OF False le] by simp
  qed
qed

lemma decimal_digits_mono: "0 \<le> a \<Longrightarrow> a \<le> b \<Longrightarrow> decimal_digits a \<le> decimal_digits b"
  unfolding decimal_digits_def by (rule length_str_nat_mono) simp

text \<open>A number has at most \<open>k\<close> digits exactly when it is below \<open>10 ^ k\<close>, so \<open>str\<close>
  prints the numbers whose absolute value is below \<open>10 ^ 4300\<close>.\<close>

lemma length_str_nat_le_iff: "0 < k \<Longrightarrow> (length (str_nat n) \<le> k) = (n < 10 ^ k)"
proof (induction n arbitrary: k rule: str_nat.induct)
  case (1 n)
  show ?case
  proof (cases "n < 10")
    case True
    then have "length (str_nat n) = 1"
      by (subst str_nat.simps) simp
    moreover have "(10::nat) ^ 1 \<le> 10 ^ k"
      using "1.prems" by (intro power_increasing) simp_all
    ultimately show ?thesis
      using True "1.prems" by simp
  next
    case False
    have len: "length (str_nat n) = Suc (length (str_nat (n div 10)))"
      using False by (subst str_nat.simps) simp
    show ?thesis
    proof (cases k)
      case 0
      with "1.prems" show ?thesis
        by simp
    next
      case (Suc j)
      show ?thesis
      proof (cases "j = 0")
        case True
        with Suc False length_str_nat_pos[of "n div 10"] show ?thesis
          by (simp add: len)
      next
        case nz: False
        then have "(length (str_nat (n div 10)) \<le> j) = (n div 10 < 10 ^ j)"
          by (intro "1.IH"[OF False]) simp
        moreover have "(n div 10 < 10 ^ j) = (n < 10 * 10 ^ j)"
          by (simp add: div_less_iff_less_mult mult.commute)
        ultimately show ?thesis
          by (simp add: len Suc)
      qed
    qed
  qed
qed

lemma decimal_digits_le_iff: "0 < k \<Longrightarrow> (decimal_digits i \<le> k) = (\<bar>i\<bar> < 10 ^ k)"
proof -
  assume "0 < k"
  then have "(decimal_digits i \<le> k) = (nat \<bar>i\<bar> < 10 ^ k)"
    unfolding decimal_digits_def by (rule length_str_nat_le_iff)
  also have "\<dots> = (\<bar>i\<bar> < int (10 ^ k))"
    by (simp only: nat_less_iff abs_ge_zero)
  finally show ?thesis
    by simp
qed

lemma py_str_int_Some: "decimal_digits i \<le> int_max_str_digits \<Longrightarrow> py_str_int i = Some (str_int i)"
  by (simp add: py_str_int_def)

lemma py_str_int_None: "int_max_str_digits < decimal_digits i \<Longrightarrow> py_str_int i = None"
  by (simp add: py_str_int_def)

lemma decimal_digits_small [simp]:
  "decimal_digits 1 = 1" "decimal_digits 3 = 1" "decimal_digits 4 = 1" "decimal_digits 5 = 1"
  "decimal_digits 50 = 2" "decimal_digits 2000 = 4"
  by (simp_all add: decimal_digits_def str_nat.simps)

lemma py_str_int_small [simp]:
  "py_str_int 1 = Some ''1''" "py_str_int 3 = Some ''3''" "py_str_int 4 = Some ''4''"
  "py_str_int 5 = Some ''5''" "py_str_int 50 = Some ''50''" "py_str_int 2000 = Some ''2000''"
  by (simp_all add: py_str_int_def int_max_str_digits_def)

text \<open>The number \<open>10 ^ k\<close> is written with \<open>k + 1\<close> digits.\<close>

lemma str_nat_power10: "str_nat (10 ^ k) = CHR ''1'' # replicate k (CHR ''0'')"
proof (induction k)
  case 0
  show ?case
    by (subst str_nat.simps) (simp add: digit_char_def)
next
  case (Suc k)
  have "\<not> (10::nat) ^ Suc k < 10"
    by simp
  then have "str_nat (10 ^ Suc k) = str_nat (10 ^ Suc k div 10) @ [digit_char (10 ^ Suc k mod 10)]"
    by (subst str_nat.simps) (simp only: if_False)
  also have "\<dots> = (CHR ''1'' # replicate k (CHR ''0'')) @ [CHR ''0'']"
    using Suc.IH by (simp add: digit_char_def)
  also have "\<dots> = CHR ''1'' # replicate (Suc k) (CHR ''0'')"
    by (simp add: replicate_append_same)
  finally show ?case .
qed

lemma decimal_digits_power10: "decimal_digits (10 ^ k) = Suc k"
proof -
  have "nat \<bar>(10::int) ^ k\<bar> = 10 ^ k"
    by (simp add: nat_power_eq)
  then have "decimal_digits (10 ^ k) = length (str_nat (10 ^ k))"
    by (simp only: decimal_digits_def)
  then show ?thesis
    by (simp add: str_nat_power10)
qed

lemma py_str_int_above_limit: "py_str_int (10 ^ 4300) = None"
  by (rule py_str_int_None, subst decimal_digits_power10) (simp add: int_max_str_digits_def)

text \<open>In range mode, on a file that exists and decodes, \<open>read_file\<close> is \<open>read_range\<close> on
  the lines of the file.\<close>

lemma read_file_text:
  assumes "fs_exists fs (if isabs tf then tf else path_join wroot tf)"
    and "fs_read fs (if isabs tf then tf else path_join wroot tf) = ReadText text"
  shows "read_file fs wroot (VStr tf) (VBool False) st en ex
           = Inr (read_range tf (readlines text) st en)"
  using assms by (simp add: read_file_def Let_def)

text \<open>A range within the cap is read, unless an f-string of the result raises.\<close>

lemma read_range_within_cap:
  assumes "1 \<le> s" and "s \<le> e" and "min e (int (length lines)) - (s - 1) \<le> 250"
  shows "success (read_range tf lines (VInt s) (VInt e)) \<or>
         read_range tf lines (VInt s) (VInt e)
           = failed (''Error reading file '' @ tf @ '': '' @ int_to_str_error)"
  using assms
  by (simp add: read_range_def Let_def succeeded_def split: option.splits split del: if_split)

lemma read_range_above_cap:
  assumes "1 \<le> s" and "s \<le> e" and "min e (int (length lines)) - (s - 1) > 250"
  shows "read_range tf lines (VInt s) (VInt e) = failed ''Cannot read more than 250 lines at once''"
  using assms by (simp add: read_range_def Let_def)

subsection \<open>C1: the 250-line cap\<close>

text \<open>
  C1 as stated: whenever \<open>end - start > 250\<close> (with \<open>1 <= start <= end\<close>) the call fails,
  however many lines the file has. The code caps something else: it first clamps the end
  to the number of lines of the file, and refuses only when the clamped range
  \<open>min(end, total_lines) - (start - 1)\<close> is above 250. On a file of 50 lines the request
  for lines 5 to 2000 has a span of 1995 and succeeds.
\<close>

theorem read_file_span_above_250_succeeds:
  "(2000::int) - 5 > 250 \<and>
   (\<exists>result. read_file (single_file_fs ''./notes.txt'' (text_of_lines 50)) ''.''
                (VStr ''notes.txt'') (VBool False) (VInt 5) (VInt 2000) (VStr ''why'')
              = Inr result \<and> success result)"
  by (simp add: read_file_def single_file_fs_def isabs_def path_join_def Let_def
      read_range_def length_readlines_text_of_lines succeeded_def)

text \<open>
  C1, amended: for a file that exists and decodes, and a range-mode call with
  \<open>1 <= start <= end\<close>, the call fails with "Cannot read more than 250 lines at once" (and
  empty content) exactly when \<open>min(end, total_lines) - (start - 1) > 250\<close>.
\<close>

theorem read_file_range_too_large:
  assumes "fs_exists fs (if isabs tf then tf else path_join wroot tf)"
    and "fs_read fs (if isabs tf then tf else path_join wroot tf) = ReadText text"
    and "1 \<le> s" and "s \<le> e"
  shows "(read_file fs wroot (VStr tf) (VBool False) (VInt s) (VInt e) ex
            = Inr \<lparr>success = False, content = [],
                   error = Some ''Cannot read more than 250 lines at once''\<rparr>)
         = (min e (int (length (readlines text))) - (s - 1) > 250)"
proof (cases "min e (int (length (readlines text))) - (s - 1) > 250")
  case True
  with assms(3,4) show ?thesis
    unfolding read_file_text[OF assms(1,2)]
    by (simp add: read_range_above_cap failed_def)
next
  case False
  then have "min e (int (length (readlines text))) - (s - 1) \<le> 250"
    by simp
  from read_range_within_cap[OF assms(3,4) this, of tf] False show ?thesis
    unfolding read_file_text[OF assms(1,2)]
    by (auto simp: failed_def)
qed

theorem read_file_range_too_large_witness:
  "fs_exists (single_file_fs ''./notes.txt'' (text_of_lines 300)) (path_join ''.'' ''notes.txt'')
   \<and> fs_read (single_file_fs ''./notes.txt'' (text_of_lines 300)) (path_join ''.'' ''notes.txt'')
       = ReadText (text_of_lines 300)
   \<and> (1::int) \<le> 1 \<and> (1::int) \<le> 300
   \<and> min 300 (int (length (readlines (text_of_lines 300)))) - (1 - 1) > 250
   \<and> read_file (single_file_fs ''./notes.txt'' (text_of_lines 300)) ''.''
         (VStr ''notes.txt'') (VBool False) (VInt 1) (VInt 300) (VStr ''why'')
       = Inr \<lparr>success = False, content = [],
              error = Some ''Cannot read more than 250 lines at once''\<rparr>"
  using read_file_range_too_large [of "single_file_fs ''./notes.txt'' (text_of_lines 300)"
      "''notes.txt''" "''.''" "text_of_lines 300" 1 300 "VStr ''why''"]
  by (simp add: single_file_fs_def isabs_def path_join_def length_readlines_text_of_lines)

subsection \<open>C2: a requested end beyond the end of the file\<close>

text \<open>When the requested end is beyond the last line and has more than 4300 digits, the
  f-string of the note raises, and the call fails with the text of that exception.\<close>

lemma read_range_end_above_digit_limit:
  assumes "1 \<le> s" and "s \<le> e" and "int (length lines) < e"
    and "int (length lines) - (s - 1) \<le> 250" and "py_str_int e = None"
  shows "read_range tf lines (VInt s) (VInt e)
           = failed (''Error reading file '' @ tf @ '': '' @ int_to_str_error)"
proof (cases "py_str_int s")
  case None
  with assms show ?thesis
    by (simp add: read_range_def Let_def split: option.splits split del: if_split)
next
  case (Some shown)
  with assms show ?thesis
    by (simp add: read_range_def Let_def split: option.splits split del: if_split)
qed

lemma three_less_power10: "(3::int) < 10 ^ 4300"
proof -
  have "(10::int) ^ 1 \<le> 10 ^ 4300"
    by (rule power_increasing) simp_all
  moreover have "(3::int) < 10 ^ 1"
    by simp
  ultimately show ?thesis
    by (rule less_le_trans[rotated])
qed

text \<open>
  C2 as stated: every range-mode call whose end is beyond the last line succeeds. The
  250-line cap still applies to the clamped range: on a file of 300 lines the request
  for lines 1 to 301 fails. And the note prints the requested end: for lines 1 to
  \<open>10 ^ 4300\<close> of a file of three lines the f-string raises \<open>ValueError\<close>, which the last
  handler of \<open>read_file\<close> turns into a failed result.
\<close>

theorem read_file_end_beyond_eof_can_fail:
  "(301::int) > 300 \<and>
   read_file (single_file_fs ''./notes.txt'' (text_of_lines 300)) ''.''
      (VStr ''notes.txt'') (VBool False) (VInt 1) (VInt 301) (VStr ''why'')
   = Inr \<lparr>success = False, content = [],
          error = Some ''Cannot read more than 250 lines at once''\<rparr>
   \<and> (10::int) ^ 4300 > 3 \<and>
   read_file (single_file_fs ''./notes.txt'' (text_of_lines 3)) ''.''
      (VStr ''notes.txt'') (VBool False) (VInt 1) (VInt (10 ^ 4300)) (VStr ''why'')
   = Inr \<lparr>success = False, content = [],
          error = Some (''Error reading file notes.txt: '' @ int_to_str_error)\<rparr>"
proof -
  have a: "read_file (single_file_fs ''./notes.txt'' (text_of_lines 300)) ''.''
      (VStr ''notes.txt'') (VBool False) (VInt 1) (VInt 301) (VStr ''why'')
   = Inr \<lparr>success = False, content = [],
          error = Some ''Cannot read more than 250 lines at once''\<rparr>"
    by (simp add: read_file_def single_file_fs_def isabs_def path_join_def Let_def
        read_range_def length_readlines_text_of_lines failed_def)
  have lines: "int (length (readlines (text_of_lines 3))) = 3"
    by (simp add: length_readlines_text_of_lines)
  have "read_range ''notes.txt'' (readlines (text_of_lines 3)) (VInt 1) (VInt (10 ^ 4300))
          = failed (''Error reading file '' @ ''notes.txt'' @ '': '' @ int_to_str_error)"
  proof (rule read_range_end_above_digit_limit)
    show "(1::int) \<le> 1"
      by simp
    show "(1::int) \<le> 10 ^ 4300"
      by (rule one_le_power) simp
    show "int (length (readlines (text_of_lines 3))) < 10 ^ 4300"
      unfolding lines by (rule three_less_power10)
    show "int (length (readlines (text_of_lines 3))) - (1 - 1) \<le> 250"
      unfolding lines by simp
    show "py_str_int (10 ^ 4300) = None"
      by (rule py_str_int_above_limit)
  qed
  moreover have "read_file (single_file_fs ''./notes.txt'' (text_of_lines 3)) ''.''
      (VStr ''notes.txt'') (VBool False) (VInt 1) en (VStr ''why'')
    = Inr (read_range ''notes.txt'' (readlines (text_of_lines 3)) (VInt 1) en)" for en
    by (rule read_file_text) (simp_all add: single_file_fs_def isabs_def path_join_def)
  ultimately have b: "read_file (single_file_fs ''./notes.txt'' (text_of_lines 3)) ''.''
      (VStr ''notes.txt'') (VBool False) (VInt 1) (VInt (10 ^ 4300)) (VStr ''why'')
   = Inr \<lparr>success = False, content = [],
          error = Some (''Error reading file notes.txt: '' @ int_to_str_error)\<rparr>"
    by (simp only: failed_def append.simps)
  have c: "(301::int) > 300"
    by simp
  from a b c three_less_power10 show ?thesis
    by blast
qed

text \<open>
  C2, amended: for a file that exists and decodes, and a range-mode call with
  \<open>1 <= start <= end\<close> whose end is beyond the last line, if the file has at most 250
  lines from \<open>start\<close> on and the end has at most 4300 digits, the call succeeds; its
  content says that lines \<open>start\<close> to \<open>total_lines\<close> are returned (end of file) and holds
  the lines from \<open>start\<close> to the last one. In particular lines 5 to 2000 of a file of 50
  lines give lines 5 to 50 and that note.
\<close>

theorem read_file_end_beyond_eof:
  assumes "fs_exists fs (if isabs tf then tf else path_join wroot tf)"
    and "fs_read fs (if isabs tf then tf else path_join wroot tf) = ReadText text"
  shows "(1 \<le> s \<and> s \<le> e \<and> int (length (readlines text)) < e
           \<and> int (length (readlines text)) - (s - 1) \<le> 250
           \<and> decimal_digits e \<le> int_max_str_digits \<longrightarrow>
          read_file fs wroot (VStr tf) (VBool False) (VInt s) (VInt e) ex =
            Inr \<lparr>success = True,
             content = ''Requested to read lines '' @ str_int s @ ''-'' @ str_int e
              @ '', but returning lines '' @ str_int s @ ''-''
              @ str_int (int (length (readlines text))) @ '' (end of file).'' @ [NL]
              @ ''```'' @ [NL] @ rstrip (concat (drop (nat (s - 1)) (readlines text))) @ [NL]
              @ ''```''
              @ (if 1 < s then [NL, NL] @ ''Summary: Lines 1-'' @ str_int (s - 1) @ '' not shown''
                 else []),
             error = None\<rparr>)
       \<and> (length (readlines text) = 50 \<longrightarrow>
          read_file fs wroot (VStr tf) (VBool False) (VInt 5) (VInt 2000) ex =
            Inr \<lparr>success = True,
             content = ''Requested to read lines 5-2000, but returning lines 5-50 (end of file).''
              @ [NL] @ ''```'' @ [NL] @ rstrip (concat (drop 4 (readlines text))) @ [NL]
              @ ''```'' @ [NL, NL] @ ''Summary: Lines 1-4 not shown'',
             error = None\<rparr>)"
proof -
  have shown: "py_str_int s = Some (str_int s) \<and> py_str_int e = Some (str_int e)
      \<and> py_str_int (s - 1) = Some (str_int (s - 1))
      \<and> py_str_int (int (length (readlines text))) = Some (str_int (int (length (readlines text))))"
    if "1 \<le> s" "s \<le> e" "int (length (readlines text)) < e"
       "decimal_digits e \<le> int_max_str_digits"
  proof -
    have "decimal_digits s \<le> decimal_digits e" "decimal_digits (s - 1) \<le> decimal_digits e"
      "decimal_digits (int (length (readlines text))) \<le> decimal_digits e"
      using that by (simp_all add: decimal_digits_mono)
    with that(4) show ?thesis
      by (simp add: py_str_int_Some)
  qed
  show ?thesis
    unfolding read_file_text[OF assms]
    using shown by (simp add: read_range_def Let_def py_slice_def succeeded_def)
qed

theorem read_file_end_beyond_eof_witness:
  "fs_exists (single_file_fs ''./notes.txt'' (text_of_lines 50)) (path_join ''.'' ''notes.txt'')
   \<and> fs_read (single_file_fs ''./notes.txt'' (text_of_lines 50)) (path_join ''.'' ''notes.txt'')
       = ReadText (text_of_lines 50)
   \<and> length (readlines (text_of_lines 50)) = 50
   \<and> (1::int) \<le> 5 \<and> (5::int) \<le> 2000 \<and> int (length (readlines (text_of_lines 50))) < 2000
   \<and> int (length (readlines (text_of_lines 50))) - (5 - 1) \<le> 250
   \<and> decimal_digits 2000 \<le> int_max_str_digits
   \<and> read_file (single_file_fs ''./notes.txt'' (text_of_lines 50)) ''.''
         (VStr ''notes.txt'') (VBool False) (VInt 5) (VInt 2000) (VStr ''why'')
       = Inr \<lparr>success = True,
          content = ''Requested to read lines 5-2000, but returning lines 5-50 (end of file).''
            @ [NL] @ ''```'' @ [NL] @ rstrip (concat (replicate 46 [CHR ''x'', NL])) @ [NL]
            @ ''```'' @ [NL, NL] @ ''Summary: Lines 1-4 not shown'',
          error = None\<rparr>"
  using read_file_end_beyond_eof [of "single_file_fs ''./notes.txt'' (text_of_lines 50)"
      "''notes.txt''" "''.''" "text_of_lines 50" 5 2000 "VStr ''why''"]
  by (simp add: single_file_fs_def isabs_def path_join_def readlines_text_of_lines
      int_max_str_digits_def)

subsection \<open>C8: the summary of omitted lines\<close>

text \<open>
  C8 says that a successful range read with no line omitted ends in a summary reading
  "complete file section shown". The code builds that text (\<open>summary\<close>) but appends the
  summary only under \<open>if summary_parts\<close>, so nothing is appended: reading lines 1 to 3 of a
  file of three lines returns the header and the fenced lines only.
\<close>

theorem read_file_complete_section_no_summary:
  "read_file (single_file_fs ''./notes.txt'' (''a'' @ [NL] @ ''b'' @ [NL] @ ''c'' @ [NL])) ''.''
      (VStr ''notes.txt'') (VBool False) (VInt 1) (VInt 3) (VStr ''why'')
   = Inr \<lparr>success = True,
          content = ''Contents of notes.txt, lines 1-3:'' @ [NL] @ ''```'' @ [NL]
            @ ''a'' @ [NL] @ ''b'' @ [NL] @ ''c'' @ [NL] @ ''```'',
          error = None\<rparr>"
  by (simp add: read_file_def single_file_fs_def isabs_def path_join_def Let_def
      read_range_def py_slice_def py_min_def rstrip_def is_space_def NL_def succeeded_def)

subsection \<open>C10: listing an empty directory\<close>

text \<open>
  C10: for a directory that exists and has no entries, \<open>list_dir\<close> succeeds and its
  content is the message "Directory '<path>' is empty." (so not an empty content).
\<close>

theorem list_dir_empty:
  assumes "fs_exists fs (if rp = ''.'' then wroot else path_join wroot rp)"
    and "fs_isdir fs (if rp = ''.'' then wroot else path_join wroot rp)"
    and "fs_listdir fs (if rp = ''.'' then wroot else path_join wroot rp) = OsOk []"
  shows "list_dir fs wroot (VStr rp) ex
           = Inr \<lparr>success = True, content = ''Directory '' @ [SQ] @ rp @ [SQ] @ '' is empty.'',
                  error = None\<rparr>"
  using assms by (simp add: list_dir_def Let_def succeeded_def)

theorem list_dir_empty_witness:
  "fs_exists (empty_dir_fs ''/work'') ''/work'' \<and> fs_isdir (empty_dir_fs ''/work'') ''/work''
   \<and> fs_listdir (empty_dir_fs ''/work'') ''/work'' = OsOk []
   \<and> list_dir (empty_dir_fs ''/work'') ''/work'' (VStr ''.'') (VStr ''exploring'')
       = Inr \<lparr>success = True, content = ''Directory '' @ [SQ] @ ''.'' @ [SQ] @ '' is empty.'',
              error = None\<rparr>"
  using list_dir_empty [of "empty_dir_fs ''/work''" "''.''" "''/work''" "VStr ''exploring''"]
  by (simp add: empty_dir_fs_def)

subsection \<open>C7: missing parameters and unknown tools\<close>

lemma missing_params_absent:
  "missing_params required kwargs = filter (\<lambda>p. p \<notin> fst ` set kwargs) required"
  by (simp add: missing_params_def map_of_eq_None_iff)

text \<open>Every string that is joined occurs in the joined text.\<close>

lemma sublist_join: "p \<in> set ps \<Longrightarrow> sublist p (join sep ps)"
proof (induction sep ps rule: join.induct)
  case (1 sep)
  then show ?case
    by simp
next
  case (2 sep x)
  then show ?case
    by simp
next
  case (3 sep x y ys)
  show ?case
  proof (cases "p = x")
    case True
    then show ?thesis
      by (simp add: sublist_append_rightI)
  next
    case False
    with 3 have "sublist p (join sep (y # ys))"
      by simp
    then have "sublist p ((x @ sep) @ join sep (y # ys))"
      by (rule sublist_order.order_trans) (rule sublist_append_leftI)
    then show ?thesis
      by simp
  qed
qed

text \<open>
  What the dispatcher does when no parameter is named \<open>self\<close> or \<open>tool_name\<close>. For
  \<open>read_file\<close> and for \<open>list_dir\<close>, when a required key is absent from the parameters it
  returns the failed result "Missing required parameters: " followed by the absent
  required keys, in the order of the table and separated by ", "; the result does not
  depend on the file system, so the tool has not run. Every absent required key occurs
  in that message. With no parameter at all the message lists the whole table, and with
  only \<open>explanation\<close> absent it names \<open>explanation\<close> alone. Any other tool name gives the
  failed result "Unknown tool: <name>".
\<close>

lemma execute_tool_missing_read_file:
  assumes "\<not> list_ex (\<lambda>(k, v). k \<in> set execute_tool_params) kwargs"
    and "missing_params read_file_params kwargs \<noteq> []"
  shows "execute_tool fs wroot ''read_file'' kwargs =
           Inr \<lparr>success = False, content = [],
                error = Some (''Missing required parameters: ''
                          @ join '', '' (missing_params read_file_params kwargs))\<rparr>"
  using assms by (simp add: execute_tool_def failed_def)

lemma execute_tool_missing_list_dir:
  assumes "\<not> list_ex (\<lambda>(k, v). k \<in> set execute_tool_params) kwargs"
    and "missing_params list_dir_params kwargs \<noteq> []"
  shows "execute_tool fs wroot ''list_dir'' kwargs =
           Inr \<lparr>success = False, content = [],
                error = Some (''Missing required parameters: ''
                          @ join '', '' (missing_params list_dir_params kwargs))\<rparr>"
  using assms by (simp add: execute_tool_def failed_def)

lemma missing_params_named:
  assumes "p \<in> set required" and "map_of kwargs p = None"
  shows "sublist p (''Missing required parameters: '' @ join '', '' (missing_params required kwargs))"
proof -
  from assms have "p \<in> set (missing_params required kwargs)"
    by (simp add: missing_params_def)
  then have "sublist p (join '', '' (missing_params required kwargs))"
    by (rule sublist_join)
  then show ?thesis
    by (rule sublist_order.order_trans) (rule sublist_append_leftI)
qed

lemma execute_tool_missing_explanation:
  assumes "\<not> list_ex (\<lambda>(k, v). k \<in> set execute_tool_params) kwargs"
    and "map_of kwargs ''target_file'' \<noteq> None"
    and "map_of kwargs ''should_read_entire_file'' \<noteq> None"
    and "map_of kwargs ''start_line_one_indexed'' \<noteq> None"
    and "map_of kwargs ''end_line_one_indexed_inclusive'' \<noteq> None"
    and "map_of kwargs ''explanation'' = None"
  shows "execute_tool fs wroot ''read_file'' kwargs =
           Inr \<lparr>success = False, content = [],
                error = Some ''Missing required parameters: explanation''\<rparr>"
proof -
  from assms(2-6) have "missing_params read_file_params kwargs = [''explanation'']"
    by (simp add: missing_params_def read_file_params_def)
  with execute_tool_missing_read_file[OF assms(1), of fs wroot] show ?thesis
    by simp
qed

lemma execute_tool_no_parameters:
  "execute_tool fs wroot ''read_file'' [] =
     Inr \<lparr>success = False, content = [],
          error = Some (''Missing required parameters: target_file, should_read_entire_file, ''
                    @ ''start_line_one_indexed, end_line_one_indexed_inclusive, explanation'')\<rparr>"
  "execute_tool fs wroot ''list_dir'' [] =
     Inr \<lparr>success = False, content = [],
          error = Some ''Missing required parameters: relative_workspace_path, explanation''\<rparr>"
  by (simp_all add: execute_tool_def missing_params_def read_file_params_def list_dir_params_def
      failed_def)

lemma execute_tool_unknown:
  assumes "\<not> list_ex (\<lambda>(k, v). k \<in> set execute_tool_params) kwargs"
    and "tool_name \<noteq> ''read_file''" and "tool_name \<noteq> ''list_dir''"
  shows "execute_tool fs wroot tool_name kwargs =
           Inr \<lparr>success = False, content = [], error = Some (''Unknown tool: '' @ tool_name)\<rparr>"
  using assms by (simp add: execute_tool_def failed_def)

text \<open>
  C7 says that the dispatcher returns the failed result of an unknown tool for every
  tool name outside the registered set, and the failed result of missing parameters for
  a registered tool with a required key absent, whatever the parameters hold.
  \<open>execute_tools\<close> passes the parameters as keywords, \<open>tools.execute_tool(tool_name,
  **params)\<close>: when one of them is named \<open>tool_name\<close>, Python raises \<open>TypeError\<close> at the call
  (multiple values for the argument \<open>tool_name\<close>) before the body of the dispatcher runs.
  So the dispatcher raises for the unknown tool \<open>foo\<close>, and for \<open>read_file\<close> with all its
  required keys absent; and the response \<open>TOOL:foo(tool_name=x)\<close> is parsed to such a
  call, which \<open>execute_tools\<close> then fails to execute.
\<close>

theorem execute_tool_keyword_tool_name_raises:
  "execute_tool fs wroot ''foo'' [(''tool_name'', VStr ''x'')] = Inl TypeError
   \<and> execute_tool fs wroot ''read_file'' [(''tool_name'', VStr ''x'')] = Inl TypeError
   \<and> parse_tool_calls ''TOOL:foo(tool_name=x)'' = [(''foo'', [(''tool_name'', VStr ''x'')])]
   \<and> execute_tools fs wroot (parse_tool_calls ''TOOL:foo(tool_name=x)'') = Inl TypeError"
proof -
  have parsed: "parse_tool_calls ''TOOL:foo(tool_name=x)'' = [(''foo'', [(''tool_name'', VStr ''x'')])]"
    by code_simp
  have raised: "execute_tool fs wroot name [(''tool_name'', VStr ''x'')] = Inl TypeError" for name
    by (simp add: execute_tool_def execute_tool_params_def)
  show ?thesis
    by (simp add: parsed raised)
qed

subsection \<open>C9: failures that leave the dispatcher\<close>

text \<open>When the parameters of a registered tool hold no key but the tool's own, no
  parameter is named \<open>self\<close> or \<open>tool_name\<close>, and every parameter can be printed, the
  dispatcher returns a result.\<close>

lemma read_file_returns:
  assumes "py_str target_file \<noteq> None"
  shows "\<exists>r. read_file fs wroot target_file whole st en ex = Inr r"
  using assms by (cases target_file) (auto simp: read_file_def)

lemma list_dir_returns:
  assumes "py_str path \<noteq> None"
  shows "\<exists>r. list_dir fs wroot path ex = Inr r"
  using assms by (cases path) (auto simp: list_dir_def)

lemma execute_tool_returns_without_extra_keys:
  assumes "\<not> list_ex (\<lambda>(k, v). k \<in> set execute_tool_params) kwargs"
    and "list_all (\<lambda>(k, v). py_str v \<noteq> None) kwargs"
    and "tool_name = ''read_file'' \<Longrightarrow> list_all (\<lambda>(k, v). k \<in> set read_file_params) kwargs"
    and "tool_name = ''list_dir'' \<Longrightarrow> list_all (\<lambda>(k, v). k \<in> set list_dir_params) kwargs"
  shows "\<exists>r. execute_tool fs wroot tool_name kwargs = Inr r"
proof -
  have ex: "list_ex (\<lambda>(k, v). k \<notin> set ps) kwargs = (\<not> list_all (\<lambda>(k, v). k \<in> set ps) kwargs)" for ps
    by (auto simp: list_ex_iff list_all_iff)
  have shown: "py_str v \<noteq> None" if "map_of kwargs k = Some v" for k v
    using map_of_SomeD[OF that] assms(2) by (auto simp: list_all_iff)
  consider "tool_name = ''read_file''" | "tool_name = ''list_dir''"
    | "tool_name \<noteq> ''read_file''" "tool_name \<noteq> ''list_dir''"
    by blast
  then show ?thesis
  proof cases
    case 1
    show ?thesis
    proof (cases "missing_params read_file_params kwargs = []")
      case True
      then obtain a b c d e where found: "map_of kwargs ''target_file'' = Some a"
        "map_of kwargs ''should_read_entire_file'' = Some b"
        "map_of kwargs ''start_line_one_indexed'' = Some c"
        "map_of kwargs ''end_line_one_indexed_inclusive'' = Some d"
        "map_of kwargs ''explanation'' = Some e"
        by (auto simp: missing_params_def read_file_params_def split: if_splits)
      from read_file_returns[OF shown[OF found(1)]]
      obtain r where "read_file fs wroot a b c d e = Inr r"
        by blast
      with 1 True assms(1,3) found show ?thesis
        by (simp add: execute_tool_def call_read_file_def ex)
    next
      case False
      with 1 assms(1) show ?thesis
        by (simp add: execute_tool_def)
    qed
  next
    case 2
    show ?thesis
    proof (cases "missing_params list_dir_params kwargs = []")
      case True
      then obtain a b where found: "map_of kwargs ''relative_workspace_path'' = Some a"
        "map_of kwargs ''explanation'' = Some b"
        by (auto simp: missing_params_def list_dir_params_def split: if_splits)
      from list_dir_returns[OF shown[OF found(1)]]
      obtain r where "list_dir fs wroot a b = Inr r"
        by blast
      with 2 True assms(1,4) found show ?thesis
        by (simp add: execute_tool_def call_list_dir_def ex)
    next
      case False
      with 2 assms(1) show ?thesis
        by (simp add: execute_tool_def)
    qed
  next
    case 3
    with assms(1) show ?thesis
      by (simp add: execute_tool_def)
  qed
qed

text \<open>
  C9 says that the dispatcher turns every failure into a failed result and never raises.
  The dispatcher checks that no required key is absent, but not that no other key is
  present, and calls \<open>self.read_file(**kwargs)\<close> outside any \<open>try\<close>: with a sixth key the
  call raises \<open>TypeError\<close> (an unexpected keyword argument), whatever the file system holds.
\<close>

theorem execute_tool_extra_keyword_raises:
  "execute_tool fs wroot ''read_file''
     [(''target_file'', VStr ''tools.py''), (''should_read_entire_file'', VBool False),
      (''start_line_one_indexed'', VInt 1), (''end_line_one_indexed_inclusive'', VInt 5),
      (''explanation'', VStr ''reading''), (''verbose'', VBool True)]
   = Inl TypeError"
  by (simp add: execute_tool_def execute_tool_params_def missing_params_def read_file_params_def
      call_read_file_def)

section \<open>Properties of the context-budget tracker\<close>

lemma count_message_tokens_loop_sum:
  "count_message_tokens_loop total_tokens messages
     = total_tokens + (\<Sum>m\<leftarrow>messages. length (content m) div 4 + 10)"
  by (induction messages arbitrary: total_tokens) (simp_all add: estimate_tokens_def)

lemma count_history_of_chars: "count_message_tokens (history_of_chars n) = n div 4 + 10"
  by (simp add: count_message_tokens_def history_of_chars_def estimate_tokens_def)

lemma max_context_tokens_1b: "max_context_tokens ''llama-3.2-1b'' = 8192"
  by (simp add: max_context_tokens_def CONTEXT_LIMITS_def)

subsection \<open>C5: the estimate and its classification\<close>

text \<open>
  C5: for every model name and every message history, the estimate is the sum over the
  messages of the character count of the content divided by 4 (integer division) plus
  10; the percentage is the estimate over the model's window, times 100; and the status
  is OK exactly below 80, WARNING exactly from 80 to below 90, CRITICAL exactly from 90.
\<close>

theorem get_context_usage_classifies:
  "fst (get_context_usage model_name messages)
     = (\<Sum>m\<leftarrow>messages. length (content m) div 4 + 10)
   \<and> fst (snd (get_context_usage model_name messages)) = max_context_tokens model_name
   \<and> usage_percentage_of (get_context_usage model_name messages)
     = real (\<Sum>m\<leftarrow>messages. length (content m) div 4 + 10)
         / real (max_context_tokens model_name) * 100
   \<and> (status_of (get_context_usage model_name messages) = ''OK'')
     = (usage_percentage_of (get_context_usage model_name messages) < 80)
   \<and> (status_of (get_context_usage model_name messages) = ''WARNING'')
     = (80 \<le> usage_percentage_of (get_context_usage model_name messages)
        \<and> usage_percentage_of (get_context_usage model_name messages) < 90)
   \<and> (status_of (get_context_usage model_name messages) = ''CRITICAL'')
     = (90 \<le> usage_percentage_of (get_context_usage model_name messages))"
  by (simp add: get_context_usage_def Let_def status_of_def usage_percentage_of_def
      count_message_tokens_def count_message_tokens_loop_sum
      CRITICAL_THRESHOLD_def WARNING_THRESHOLD_def)

subsection \<open>C6: a window of 8192 tokens\<close>

lemma status_8192:
  "status_of (get_context_usage ''llama-3.2-1b'' messages)
     = (if 7373 \<le> count_message_tokens messages then ''CRITICAL''
        else if 6554 \<le> count_message_tokens messages then ''WARNING'' else ''OK'')"
proof -
  have a: "(real n / 8192 * 100 \<ge> 9 / 10 * 100) = (7373 \<le> n)" for n :: nat
  proof -
    have "(real n / 8192 * 100 \<ge> 9 / 10 * 100) = (real (5 * n) \<ge> real 36864)"
      by (simp add: field_simps)
    also have "\<dots> = (5 * n \<ge> 36864)"
      by (simp only: of_nat_le_iff)
    also have "\<dots> = (7373 \<le> n)"
      by presburger
    finally show ?thesis .
  qed
  have b: "(real n / 8192 * 100 \<ge> 8 / 10 * 100) = (6554 \<le> n)" for n :: nat
  proof -
    have "(real n / 8192 * 100 \<ge> 8 / 10 * 100) = (real (5 * n) \<ge> real 32768)"
      by (simp add: field_simps)
    also have "\<dots> = (5 * n \<ge> 32768)"
      by (simp only: of_nat_le_iff)
    also have "\<dots> = (6554 \<le> n)"
      by presburger
    finally show ?thesis .
  qed
  show ?thesis
    using a[of "count_message_tokens messages"] b[of "count_message_tokens messages"]
    by (simp add: get_context_usage_def Let_def status_of_def max_context_tokens_1b
        CRITICAL_THRESHOLD_def WARNING_THRESHOLD_def)
qed

text \<open>
  C6 as stated: with a window of 8192 tokens, 7000 tokens are CRITICAL and 6000 are
  WARNING. But 7000 tokens are 85.4% of 8192 and 6000 are 73.2%: a history of one message
  of 27960 characters is estimated at 7000 tokens and its status is WARNING.
\<close>

theorem usage_7000_of_8192_not_critical:
  "count_message_tokens (history_of_chars 27960) = 7000
   \<and> fst (snd (get_context_usage ''llama-3.2-1b'' (history_of_chars 27960))) = 8192
   \<and> status_of (get_context_usage ''llama-3.2-1b'' (history_of_chars 27960)) \<noteq> ''CRITICAL''"
proof -
  have "fst (snd (get_context_usage ''llama-3.2-1b'' (history_of_chars 27960))) = 8192"
    by (simp add: get_context_usage_def Let_def max_context_tokens_1b)
  moreover have "status_of (get_context_usage ''llama-3.2-1b'' (history_of_chars 27960))
      \<noteq> ''CRITICAL''"
    by (simp add: status_8192 count_history_of_chars)
  ultimately show ?thesis
    by (simp add: count_history_of_chars)
qed

text \<open>
  C6, amended: for the model whose window is 8192 tokens, a history estimated at 7000
  tokens is reported WARNING, one at 6000 tokens OK and one at 1000 tokens OK; the status
  is CRITICAL from 7373 tokens on and WARNING from 6554 to 7372 tokens.
\<close>

theorem usage_of_8192_window:
  "max_context_tokens ''llama-3.2-1b'' = 8192
   \<and> (count_message_tokens messages = 7000 \<longrightarrow>
        status_of (get_context_usage ''llama-3.2-1b'' messages) = ''WARNING'')
   \<and> (count_message_tokens messages = 6000 \<longrightarrow>
        status_of (get_context_usage ''llama-3.2-1b'' messages) = ''OK'')
   \<and> (count_message_tokens messages = 1000 \<longrightarrow>
        status_of (get_context_usage ''llama-3.2-1b'' messages) = ''OK'')
   \<and> (status_of (get_context_usage ''llama-3.2-1b'' messages) = ''CRITICAL'')
        = (7373 \<le> count_message_tokens messages)
   \<and> (status_of (get_context_usage ''llama-3.2-1b'' messages) = ''WARNING'')
        = (6554 \<le> count_message_tokens messages \<and> count_message_tokens messages \<le> 7372)"
  by (simp add: status_8192 max_context_tokens_1b)

theorem usage_of_8192_window_witness:
  "count_message_tokens (history_of_chars 27960) = 7000
   \<and> status_of (get_context_usage ''llama-3.2-1b'' (history_of_chars 27960)) = ''WARNING''
   \<and> count_message_tokens (history_of_chars 23960) = 6000
   \<and> status_of (get_context_usage ''llama-3.2-1b'' (history_of_chars 23960)) = ''OK''
   \<and> count_message_tokens (history_of_chars 3960) = 1000
   \<and> status_of (get_context_usage ''llama-3.2-1b'' (history_of_chars 3960)) = ''OK''"
  using usage_of_8192_window [of "history_of_chars 27960"]
    usage_of_8192_window [of "history_of_chars 23960"]
    usage_of_8192_window [of "history_of_chars 3960"]
  by (simp add: count_history_of_chars)

section \<open>Properties of the thinking/answer splitter\<close>

text \<open>A pattern whose first character does not occur again in it cannot overlap itself.\<close>

lemma prefix_no_overlap:
  assumes "p \<notin> set ps" and "prefix (p # ps) (xs @ p # ps @ ys)" and "xs \<noteq> []"
  shows "prefix (p # ps) xs"
proof (rule ccontr)
  assume np: "\<not> prefix (p # ps) xs"
  from assms(3) obtain x xs' where xs: "xs = x # xs'" by (cases xs) auto
  with assms(2) have px: "p = x" and pre: "prefix ps (xs' @ p # ps @ ys)" by auto
  have "length xs' < length ps"
  proof (rule ccontr)
    assume "\<not> length xs' < length ps"
    then have "length ps \<le> length xs'" by simp
    with pre have "prefix ps xs'"
      by (metis prefix_length_prefix prefix_append prefix_order.order_refl)
    with np xs px show False by simp
  qed
  then have lt: "length xs' < length ps" .
  from pre obtain zs where eq: "xs' @ p # ps @ ys = ps @ zs"
    by (auto simp: prefix_def)
  have "(ps @ zs) ! length xs' = ps ! length xs'"
    using lt by (simp add: nth_append)
  moreover have "(xs' @ p # ps @ ys) ! length xs' = p"
    by simp
  ultimately have "ps ! length xs' = p"
    using eq by simp
  with \<open>length xs' < length ps\<close> assms(1) show False
    by (metis nth_mem)
qed

lemma find_sub_first:
  assumes "p \<notin> set ps" and "\<not> sublist (p # ps) xs"
  shows "find_sub (p # ps) (xs @ p # ps @ ys) = Some (xs, ys)"
  using assms(2)
proof (induction xs)
  case Nil
  then show ?case by simp
next
  case (Cons x xs)
  have "\<not> prefix (p # ps) ((x # xs) @ p # ps @ ys)"
    using prefix_no_overlap[OF assms(1), of "x # xs" ys] Cons.prems
    by (auto dest: prefix_imp_sublist)
  moreover have "\<not> sublist (p # ps) xs"
    using Cons.prems by (auto simp: sublist_Cons_right)
  ultimately show ?case
    using Cons.IH by simp
qed

lemma find_sub_None: "find_sub pat s = None \<longleftrightarrow> \<not> sublist pat s"
proof (induction s)
  case Nil
  then show ?case by simp
next
  case (Cons c cs)
  then show ?case
    by (cases "pat = []") (auto simp: sublist_Cons_right split: option.splits)
qed


lemma OPEN_TAG_Cons: "OPEN_TAG = CHR ''<'' # ''thinking>''" and open_tail: "CHR ''<'' \<notin> set ''thinking>''"
  by (simp_all add: OPEN_TAG_def)

lemma CLOSE_TAG_Cons: "CLOSE_TAG = CHR ''<'' # ''/thinking>''" and close_tail: "CHR ''<'' \<notin> set ''/thinking>''"
  by (simp_all add: CLOSE_TAG_def)

lemma match_thinking_region:
  assumes "\<not> sublist CLOSE_TAG inner"
  shows "match_thinking (OPEN_TAG @ inner @ CLOSE_TAG @ post) = Some (inner, post)"
  using find_sub_first[OF close_tail, of inner post] assms
  by (simp add: match_thinking_def CLOSE_TAG_Cons)

lemma match_thinking_before:
  assumes "\<not> sublist OPEN_TAG (x # xs)"
  shows "match_thinking ((x # xs) @ OPEN_TAG @ rest) = None"
proof -
  have "\<not> prefix OPEN_TAG ((x # xs) @ OPEN_TAG @ rest)"
    using prefix_no_overlap[OF open_tail, of "x # xs" rest] assms
    by (auto simp: OPEN_TAG_Cons dest: prefix_imp_sublist)
  then show ?thesis
    by (simp add: match_thinking_def)
qed

lemma search_thinking_here: "match_thinking s = Some m \<Longrightarrow> search_thinking s = Some m"
  by (cases s) (simp_all add: match_thinking_def OPEN_TAG_def)

lemma sub_thinking_here:
  "match_thinking s = Some (g, r) \<Longrightarrow> sub_thinking s = sub_thinking (dropWhile is_space r)"
  by (cases s) (simp_all add: sub_thinking.simps match_thinking_def OPEN_TAG_def)

lemma search_thinking_region:
  assumes "\<not> sublist OPEN_TAG pre" and "\<not> sublist CLOSE_TAG inner"
  shows "search_thinking (pre @ OPEN_TAG @ inner @ CLOSE_TAG @ post) = Some (inner, post)"
  using assms(1)
proof (induction pre)
  case Nil
  show ?case
    using search_thinking_here[OF match_thinking_region[OF assms(2), of post]] by simp
next
  case (Cons x xs)
  have "\<not> sublist OPEN_TAG xs"
    using Cons.prems by (auto simp: sublist_Cons_right)
  with Cons.IH match_thinking_before[OF Cons.prems] show ?case
    by simp
qed

lemma sub_thinking_region:
  assumes "\<not> sublist OPEN_TAG pre" and "\<not> sublist CLOSE_TAG inner"
  shows "sub_thinking (pre @ OPEN_TAG @ inner @ CLOSE_TAG @ post)
           = pre @ sub_thinking (dropWhile is_space post)"
  using assms(1)
proof (induction pre)
  case Nil
  show ?case
    using sub_thinking_here[OF match_thinking_region[OF assms(2), of post]] by simp
next
  case (Cons x xs)
  have "\<not> sublist OPEN_TAG xs"
    using Cons.prems by (auto simp: sublist_Cons_right)
  with Cons.IH match_thinking_before[OF Cons.prems] show ?case
    by (simp add: sub_thinking.simps)
qed

lemma search_thinking_drop: "search_thinking s = None \<Longrightarrow> search_thinking (drop n s) = None"
proof (induction s arbitrary: n)
  case Nil
  then show ?case by simp
next
  case (Cons c cs)
  then show ?case
    by (cases n) (auto split: option.splits)
qed

lemma sub_thinking_no_region: "search_thinking s = None \<Longrightarrow> sub_thinking s = s"
  by (induction s) (auto simp: sub_thinking.simps split: option.splits)

lemma sub_thinking_after_region:
  assumes "search_thinking post = None"
  shows "sub_thinking (dropWhile is_space post) = dropWhile is_space post"
proof -
  have "dropWhile is_space post = drop (length (takeWhile is_space post)) post"
    by (simp add: dropWhile_eq_drop)
  then show ?thesis
    using search_thinking_drop[OF assms] sub_thinking_no_region by metis
qed

subsection \<open>C4: thinking and final answer\<close>

text \<open>
  \<open>parse_thinking_response\<close> is a total function (the loop of \<open>re.sub\<close> terminates), so
  every response gives exactly one pair. If the response is
  \<open>pre <thinking> inner </thinking> post\<close> with no opening tag in \<open>pre\<close> and no closing tag
  in \<open>inner\<close>, then \<open>thinking\<close> is \<open>inner\<close> trimmed, and \<open>final_answer\<close> is, trimmed, \<open>pre\<close>
  followed by \<open>post\<close> without its leading whitespace and without any further region (each
  deleted with the whitespace after it); if \<open>post\<close> has no further region, that is \<open>pre\<close>
  followed by \<open>post\<close> without its leading whitespace. The response
  \<open><thinking>A</thinking>\n\nB\<close> gives \<open>("A", "B")\<close>. If the response has no region and no
  blank-line boundary, \<open>thinking\<close> is the placeholder and \<open>final_answer\<close> the whole response.
\<close>

lemma parse_thinking_response_split:
  "(\<not> sublist OPEN_TAG pre \<and> \<not> sublist CLOSE_TAG inner \<longrightarrow>
      parse_thinking_response (pre @ OPEN_TAG @ inner @ CLOSE_TAG @ post)
        = (strip inner, strip (pre @ sub_thinking (lstrip post))))
   \<and> (\<not> sublist OPEN_TAG pre \<and> \<not> sublist CLOSE_TAG inner \<and> search_thinking post = None \<longrightarrow>
      parse_thinking_response (pre @ OPEN_TAG @ inner @ CLOSE_TAG @ post)
        = (strip inner, strip (pre @ lstrip post)))
   \<and> parse_thinking_response (''<thinking>A</thinking>'' @ [NL, NL] @ ''B'') = (''A'', ''B'')
   \<and> (search_thinking response = None \<and> \<not> sublist [NL, NL] response \<longrightarrow>
      parse_thinking_response response = (''No explicit thinking process found'', response))"
proof -
  have general: "parse_thinking_response (pre @ OPEN_TAG @ inner @ CLOSE_TAG @ post)
        = (strip inner, strip (pre @ sub_thinking (lstrip post)))"
    if "\<not> sublist OPEN_TAG pre" "\<not> sublist CLOSE_TAG inner"
    using search_thinking_region[OF that, of post] sub_thinking_region[OF that, of post]
    by (simp add: parse_thinking_response_def lstrip_def)
  have single: "parse_thinking_response (pre @ OPEN_TAG @ inner @ CLOSE_TAG @ post)
        = (strip inner, strip (pre @ lstrip post))"
    if "\<not> sublist OPEN_TAG pre" "\<not> sublist CLOSE_TAG inner" "search_thinking post = None"
    using general[OF that(1,2)] sub_thinking_after_region[OF that(3)]
    by (simp add: lstrip_def)
  have example: "parse_thinking_response (''<thinking>A</thinking>'' @ [NL, NL] @ ''B'') = (''A'', ''B'')"
    by (simp add: parse_thinking_response_def match_thinking_def OPEN_TAG_def CLOSE_TAG_def
      sub_thinking.simps strip_def rstrip_def lstrip_def is_space_def NL_def)
  have fallback: "parse_thinking_response response = (''No explicit thinking process found'', response)"
    if "search_thinking response = None" "\<not> sublist [NL, NL] response"
    using that find_sub_None[of "[NL, NL]" response]
    by (simp add: parse_thinking_response_def)
  show ?thesis
    using general single example fallback by blast
qed

lemma parse_thinking_response_split_example:
  "\<not> sublist OPEN_TAG ''A'' \<and> \<not> sublist CLOSE_TAG ''T'' \<and> search_thinking '' B'' = None
   \<and> parse_thinking_response (''A'' @ OPEN_TAG @ ''T'' @ CLOSE_TAG @ '' B'') = (''T'', ''AB'')
   \<and> search_thinking ''no tags here'' = None \<and> \<not> sublist [NL, NL] ''no tags here''
   \<and> parse_thinking_response ''no tags here''
       = (''No explicit thinking process found'', ''no tags here'')"
proof -
  have a: "\<not> sublist OPEN_TAG ''A''" "\<not> sublist CLOSE_TAG ''T''"
    "\<not> sublist [NL, NL] ''no tags here''"
    by (simp_all add: find_sub_None[symmetric] OPEN_TAG_def CLOSE_TAG_def NL_def)
  have b: "search_thinking '' B'' = None" "search_thinking ''no tags here'' = None"
    by (simp_all add: match_thinking_def OPEN_TAG_def)
  have c: "strip (''A'' @ lstrip '' B'') = ''AB''" "strip ''T'' = ''T''"
    by (simp_all add: strip_def rstrip_def lstrip_def is_space_def)
  note split = parse_thinking_response_split [of "''A''" "''T''" "'' B''" "''no tags here''"]
  have "parse_thinking_response (''A'' @ OPEN_TAG @ ''T'' @ CLOSE_TAG @ '' B'')
      = (strip ''T'', strip (''A'' @ lstrip '' B''))"
    using split a b by blast
  then have d: "parse_thinking_response (''A'' @ OPEN_TAG @ ''T'' @ CLOSE_TAG @ '' B'')
      = (''T'', ''AB'')"
    by (simp only: c)
  have e: "parse_thinking_response ''no tags here''
      = (''No explicit thinking process found'', ''no tags here'')"
    using split a b by blast
  show ?thesis
    using a b d e by blast
qed

text \<open>When the response starts with its only region, the final answer is the text after
  the region, trimmed: what the source says of it (\<open>Everything after </thinking> is the
  final answer\<close>), and what C4 says.\<close>

lemma strip_lstrip: "strip (lstrip s) = strip s"
  by (simp add: strip_def lstrip_def)

lemma parse_thinking_response_region_first:
  assumes "\<not> sublist CLOSE_TAG inner" and "search_thinking post = None"
  shows "parse_thinking_response (OPEN_TAG @ inner @ CLOSE_TAG @ post) = (strip inner, strip post)"
proof -
  have "\<not> sublist OPEN_TAG []"
    by (simp add: OPEN_TAG_def)
  with assms parse_thinking_response_split[of "[]" inner post]
  have "parse_thinking_response ([] @ OPEN_TAG @ inner @ CLOSE_TAG @ post)
          = (strip inner, strip ([] @ lstrip post))"
    by blast
  then show ?thesis
    by (simp add: strip_lstrip)
qed

text \<open>
  C4 says that, with a tagged region, the final answer is the trimmed rest of the
  response, the region removed; the source says of it \<open>Everything after </thinking> is
  the final answer\<close>. The code does neither when text stands before the region or a
  second region follows: \<open>re.sub\<close> deletes the whitespace after the region too, and it
  deletes every region, not only the one \<open>thinking\<close> was read from. The response
  "A<thinking>T</thinking> B" gives the final answer "AB", which is neither "A B" (the
  rest of the response, trimmed) nor "B" (the text after the region), and
  "<thinking>A</thinking>B<thinking>C</thinking>D" gives "BD".
\<close>

theorem parse_thinking_response_not_plain_remainder:
  "snd (parse_thinking_response (''A'' @ OPEN_TAG @ ''T'' @ CLOSE_TAG @ '' B''))
     \<noteq> strip (''A'' @ '' B'')
   \<and> parse_thinking_response (''A'' @ OPEN_TAG @ ''T'' @ CLOSE_TAG @ '' B'') = (''T'', ''AB'')
   \<and> snd (parse_thinking_response (OPEN_TAG @ ''A'' @ CLOSE_TAG @ ''B<thinking>C</thinking>D''))
     \<noteq> strip (''B<thinking>C</thinking>D'')
   \<and> parse_thinking_response (OPEN_TAG @ ''A'' @ CLOSE_TAG @ ''B<thinking>C</thinking>D'')
     = (''A'', ''BD'')"
  by (simp add: parse_thinking_response_def match_thinking_def OPEN_TAG_def CLOSE_TAG_def
      sub_thinking.simps strip_def rstrip_def lstrip_def is_space_def)
section \<open>Properties of the tool-call extractor\<close>

subsection \<open>Matches of the tool pattern\<close>

lemma sublist_single: "sublist [c] xs \<longleftrightarrow> c \<in> set xs"
  by (induction xs) (auto simp: sublist_Cons_right)

lemma match_tool_call:
  assumes "CHR '')'' \<notin> set args"
  shows "match_tool (''TOOL:read_file('' @ args @ '')'' @ rest) = Some ((''read_file'', args), rest)"
proof -
  have "find_sub '')'' (args @ CHR '')'' # [] @ rest) = Some (args, rest)"
    by (rule find_sub_first) (simp_all add: sublist_single assms)
  then show ?thesis
    by (simp add: match_tool_def is_word_def)
qed

lemma mark_tail: "CHR ''T'' \<notin> set ''OOL:''"
  by simp

lemma match_tool_needs_mark: "match_tool s = Some x \<Longrightarrow> prefix ''TOOL:'' s"
  by (simp add: match_tool_def split: if_splits)

lemma mark_no_overlap:
  "prefix ''TOOL:'' (xs @ ''TOOL:'' @ t) \<Longrightarrow> xs \<noteq> [] \<Longrightarrow> prefix ''TOOL:'' xs"
  using prefix_no_overlap[of "CHR ''T''" "''OOL:''" xs t] by simp

lemma no_mark_before_mark:
  assumes "\<not> sublist ''TOOL:'' (x # xs)"
  shows "\<not> prefix ''TOOL:'' ((x # xs) @ ''TOOL:'' @ t)"
  using mark_no_overlap[of "x # xs" t] assms prefix_imp_sublist[of "''TOOL:''" "x # xs"]
  by blast

lemma match_tool_before_mark:
  assumes "\<not> sublist ''TOOL:'' (x # xs)"
  shows "match_tool ((x # xs) @ ''TOOL:'' @ t) = None"
  using no_mark_before_mark[OF assms, of t] match_tool_needs_mark[of "(x # xs) @ ''TOOL:'' @ t"]
  by (cases "match_tool ((x # xs) @ ''TOOL:'' @ t)") auto

lemma findall_tool_skip:
  assumes "\<not> sublist ''TOOL:'' pre"
  shows "findall_tool (pre @ ''TOOL:'' @ t) = findall_tool (''TOOL:'' @ t)"
  using assms
proof (induction pre)
  case Nil
  then show ?case by simp
next
  case (Cons x xs)
  have "\<not> sublist ''TOOL:'' xs"
    using Cons.prems by (auto simp: sublist_Cons_right)
  with Cons.IH match_tool_before_mark[OF Cons.prems, of t] show ?case
    by (simp add: findall_tool.simps)
qed

lemma findall_tool_here:
  "match_tool s = Some (m, r) \<Longrightarrow> findall_tool s = m # findall_tool r"
  by (cases s) (simp_all add: findall_tool.simps match_tool_def)

lemma findall_tool_call:
  assumes "\<not> sublist ''TOOL:'' pre" and "CHR '')'' \<notin> set args"
  shows "findall_tool (pre @ ''TOOL:read_file('' @ args @ '')'' @ rest)
           = (''read_file'', args) # findall_tool rest"
proof -
  have "findall_tool (pre @ ''TOOL:'' @ (''read_file('' @ args @ '')'' @ rest))
          = findall_tool (''TOOL:'' @ (''read_file('' @ args @ '')'' @ rest))"
    by (rule findall_tool_skip[OF assms(1)])
  moreover have "findall_tool (''TOOL:read_file('' @ args @ '')'' @ rest)
          = (''read_file'', args) # findall_tool rest"
    by (rule findall_tool_here[OF match_tool_call[OF assms(2)]])
  ultimately show ?thesis
    by simp
qed

lemma findall_tool_no_mark: "\<not> sublist ''TOOL:'' s \<Longrightarrow> findall_tool s = []"
proof (induction s)
  case Nil
  then show ?case by simp
next
  case (Cons c cs)
  then have "match_tool (c # cs) = None" "\<not> sublist ''TOOL:'' cs"
    using match_tool_needs_mark[of "c # cs"]
    by (auto simp: sublist_Cons_right dest: prefix_imp_sublist)
  with Cons.IH show ?case
    by (simp add: findall_tool.simps)
qed


lemma matches_anywhere_suffix: "set (matches_anywhere v) \<subseteq> set (matches_anywhere (u @ v))"
  by (induction u) auto

lemma findall_tool_anywhere: "set (findall_tool s) \<subseteq> set (matches_anywhere s)"
proof (induction s rule: findall_tool.induct)
  case 1
  then show ?case by simp
next
  case (2 c cs)
  show ?case
  proof (cases "match_tool (c # cs)")
    case None
    with 2 show ?thesis
      by (auto simp: findall_tool.simps)
  next
    case (Some x)
    obtain n a rest where x: "x = ((n, a), rest)"
      by (metis surj_pair)
    from match_tool_Some[of "c # cs" n a rest] Some x
    have "c # cs = (''TOOL:'' @ n @ ''('' @ a @ '')'') @ rest"
      by simp
    then have "set (matches_anywhere rest) \<subseteq> set (matches_anywhere (c # cs))"
      using matches_anywhere_suffix[of rest "''TOOL:'' @ n @ ''('' @ a @ '')''"] by simp
    moreover have "set (findall_tool rest) \<subseteq> set (matches_anywhere rest)"
      by (rule "2.IH"(2)[OF Some x[symmetric]])
    moreover have "findall_tool (c # cs) = (n, a) # findall_tool rest"
      using Some x by (simp add: findall_tool.simps)
    moreover have "(n, a) \<in> set (matches_anywhere (c # cs))"
      using Some x by simp
    ultimately show ?thesis
      by auto
  qed
qed

lemma find_sub_length: "find_sub pat s = Some (a, r) \<Longrightarrow> length pat \<le> length s"
  by (drule find_sub_Some) simp

lemma find_sub_extend: "find_sub pat s = Some (a, r) \<Longrightarrow> find_sub pat (s @ y) = Some (a, r @ y)"
proof (induction s arbitrary: a)
  case Nil
  then show ?case
    by (cases y) (auto split: if_splits)
next
  case (Cons c cs)
  show ?case
  proof (cases "prefix pat (c # cs)")
    case True
    then have "prefix pat ((c # cs) @ y)" "length pat \<le> length (c # cs)"
      by (simp_all only: prefix_prefix prefix_length_le)
    moreover from this(2) have "drop (length pat) ((c # cs) @ y) = drop (length pat) (c # cs) @ y"
      by (simp only: drop_append diff_is_0_eq' drop_0)
    moreover from True Cons.prems have "a = []" "r = drop (length pat) (c # cs)"
      by simp_all
    ultimately show ?thesis
      by (simp del: append_Cons drop_append add: find_sub.simps(2)[of pat c "cs @ y", folded append_Cons])
  next
    case False
    with Cons.prems obtain a' where f: "find_sub pat cs = Some (a', r)" and a: "a = c # a'"
      by (auto split: option.splits)
    from find_sub_length[OF f] have "length pat \<le> length (c # cs)"
      by simp
    with False have "\<not> prefix pat ((c # cs) @ y)"
      by (metis prefix_length_prefix prefix_append prefix_order.order_refl)
    with Cons.IH[OF f] a show ?thesis
      by simp
  qed
qed

lemma match_tool_extend:
  assumes "match_tool v = Some (m, r)"
  shows "match_tool (v @ y) = Some (m, r @ y)"
proof -
  from assms have p: "prefix ''TOOL:'' v"
    by (rule match_tool_needs_mark)
  then obtain t where v: "v = ''TOOL:'' @ t"
    by (auto simp: prefix_def)
  from assms v obtain r' ps where d: "dropWhile is_word t = CHR ''('' # r'"
      and n: "takeWhile is_word t \<noteq> []"
      and f: "find_sub '')'' r' = Some (ps, r)" and m: "m = (takeWhile is_word t, ps)"
    by (auto simp: match_tool_def Let_def split: list.splits if_splits option.splits)
  from d have "CHR ''('' \<in> set t" "\<not> is_word (CHR ''('')"
    by (metis list.set_intros(1) set_dropWhileD, simp add: is_word_def)
  then have "dropWhile is_word (t @ y) = dropWhile is_word t @ y"
    "takeWhile is_word (t @ y) = takeWhile is_word t"
    by (simp_all add: dropWhile_append1 takeWhile_append1)
  with d n m find_sub_extend[OF f, of y] v show ?thesis
    by (simp add: match_tool_def)
qed

lemma matches_anywhere_prefix: "set (matches_anywhere b) \<subseteq> set (matches_anywhere (b @ y))"
proof (induction b)
  case Nil
  then show ?case by simp
next
  case (Cons c cs)
  show ?case
  proof (cases "match_tool (c # cs)")
    case None
    with Cons show ?thesis by auto
  next
    case (Some x)
    obtain m r where x: "x = (m, r)" by (metis surj_pair)
    from match_tool_extend[of "c # cs" m r y] Some x
    have "match_tool (c # cs @ y) = Some (m, r @ y)" by simp
    with Some x Cons show ?thesis by auto
  qed
qed

lemma matches_anywhere_sublist:
  assumes "sublist b r"
  shows "set (matches_anywhere b) \<subseteq> set (matches_anywhere r)"
proof -
  from assms obtain x y where "r = x @ b @ y"
    by (auto simp: sublist_def)
  with matches_anywhere_prefix[of b y] matches_anywhere_suffix[of "b @ y" x] show ?thesis
    by auto
qed

lemma findall_code_blocks_sublist: "b \<in> set (findall_code_blocks r) \<Longrightarrow> sublist b r"
proof (induction r rule: findall_code_blocks.induct)
  case 1
  then show ?case by simp
next
  case (2 c cs)
  show ?case
  proof (cases "match_code_block (c # cs)")
    case None
    with 2 have "sublist b cs"
      by (auto simp: findall_code_blocks.simps)
    then show ?thesis
      by (auto simp: sublist_Cons_right)
  next
    case (Some x)
    obtain g rest where x: "x = (g, rest)" by (metis surj_pair)
    from match_code_block_Some[of "c # cs" g rest] Some x
    obtain u where u: "c # cs = u @ g @ NL # ''```'' @ rest" by auto
    from 2(3) Some x have "b = g \<or> b \<in> set (findall_code_blocks rest)"
      by (auto simp: findall_code_blocks.simps)
    then show ?thesis
    proof
      assume "b = g"
      with u show ?thesis
        by (metis sublist_appendI)
    next
      assume "b \<in> set (findall_code_blocks rest)"
      with "2.IH"(2)[OF Some x[symmetric]] have "sublist b rest" by simp
      then have "sublist b ((u @ g @ NL # ''```'') @ rest)"
        by (metis sublist_append)
      with u show ?thesis by simp
    qed
  qed
qed

lemma all_matches_anywhere:
  "set (all_matches r) \<subseteq> set (matches_anywhere r)"
  using findall_tool_anywhere matches_anywhere_sublist findall_code_blocks_sublist
  by (fastforce simp: all_matches_def)


lemma match_tool_no_mark: "\<not> prefix ''TOOL:'' s \<Longrightarrow> match_tool s = None"
  by (simp add: match_tool_def)

lemma matches_anywhere_no_T:
  "CHR ''T'' \<notin> set u \<Longrightarrow> matches_anywhere (u @ rest) = matches_anywhere rest"
proof (induction u)
  case Nil
  then show ?case by simp
next
  case (Cons x xs)
  then have "\<not> prefix ''TOOL:'' ((x # xs) @ rest)"
    by auto
  with Cons show ?case
    by (simp add: match_tool_no_mark)
qed

lemma pattern_not_across:
  assumes "\<not> sublist pat u" and "c \<notin> set pat"
  shows "\<not> prefix pat (u @ c # rest)"
proof
  assume p: "prefix pat (u @ c # rest)"
  show False
  proof (cases "length u < length pat")
    case True
    from p obtain zs where eq: "u @ c # rest = pat @ zs"
      by (auto simp: prefix_def)
    have "(u @ c # rest) ! length u = c"
      by simp
    moreover have "(pat @ zs) ! length u = pat ! length u"
      using True by (simp add: nth_append)
    ultimately have "pat ! length u = c"
      using eq by simp
    moreover have "pat ! length u \<in> set pat"
      using True by (intro nth_mem)
    ultimately show False
      using assms(2) by simp
  next
    case False
    then have "length pat \<le> length u"
      by simp
    with p have "prefix pat u"
      by (metis prefix_length_prefix prefix_append prefix_order.order_refl)
    with assms(1) show False
      by (auto dest: prefix_imp_sublist)
  qed
qed

lemmas mark_not_across = pattern_not_across[where pat = "''TOOL:''"]

lemma matches_anywhere_separated:
  assumes "\<not> sublist ''TOOL:'' u" and "c \<notin> set ''TOOL:''"
  shows "matches_anywhere (u @ c # rest) = matches_anywhere rest"
  using assms(1)
proof (induction u)
  case Nil
  have "\<not> prefix ''TOOL:'' (c # rest)"
    using assms(2) by auto
  then show ?case
    by (simp add: match_tool_no_mark)
next
  case (Cons x xs)
  have "\<not> sublist ''TOOL:'' xs"
    using Cons.prems by (auto simp: sublist_Cons_right)
  moreover have "match_tool ((x # xs) @ c # rest) = None"
    by (rule match_tool_no_mark[OF mark_not_across[OF Cons.prems assms(2)]])
  ultimately show ?case
    using Cons.IH by simp
qed

lemma matches_anywhere_before_mark:
  assumes "\<not> sublist ''TOOL:'' pre"
  shows "matches_anywhere (pre @ ''TOOL:'' @ t) = matches_anywhere (''TOOL:'' @ t)"
  using assms
proof (induction pre)
  case Nil
  then show ?case by simp
next
  case (Cons x xs)
  have "\<not> sublist ''TOOL:'' xs"
    using Cons.prems by (auto simp: sublist_Cons_right)
  with Cons.IH match_tool_before_mark[OF Cons.prems, of t] show ?case
    by simp
qed

lemma matches_anywhere_no_mark: "\<not> sublist ''TOOL:'' s \<Longrightarrow> matches_anywhere s = []"
proof (induction s)
  case Nil
  then show ?case by simp
next
  case (Cons c cs)
  then have "\<not> prefix ''TOOL:'' (c # cs)" "\<not> sublist ''TOOL:'' cs"
    by (auto simp: sublist_Cons_right dest: prefix_imp_sublist)
  with Cons.IH show ?case
    by (simp add: match_tool_no_mark)
qed

lemma digit_char_is_digit: "d < 10 \<Longrightarrow> is_digit (digit_char d)"
proof -
  assume "d < 10"
  then have "d \<in> {0, 1, 2, 3, 4, 5, 6, 7, 8, 9}"
    by auto
  then show ?thesis
    by (auto simp: digit_char_def is_digit_def)
qed

lemma str_nat_digits: "list_all is_digit (str_nat n)"
proof (induction n rule: str_nat.induct)
  case (1 n)
  show ?case
  proof (cases "n < 10")
    case True
    then show ?thesis
      by (subst str_nat.simps) (simp add: digit_char_is_digit)
  next
    case False
    with 1 show ?thesis
      by (subst str_nat.simps) (simp add: digit_char_is_digit)
  qed
qed

lemma str_nat_nonempty: "str_nat n \<noteq> []"
  by (subst str_nat.simps) simp

lemma digits_no: "list_all is_digit ds \<Longrightarrow> c \<in> set ds \<Longrightarrow> CHR ''0'' \<le> c \<and> c \<le> CHR ''9''"
  by (auto simp: list_all_iff is_digit_def)

lemma str_nat_no_T: "CHR ''T'' \<notin> set (str_nat n)"
  using digits_no[OF str_nat_digits, of "CHR ''T''" n] by auto

subsection \<open>Searching a parameter past a value\<close>

lemma ci_char_word:
  assumes "ci_char p t" and "(CHR ''a'' \<le> p \<and> p \<le> CHR ''z'') \<or> p = CHR ''_''"
  shows "is_word t"
proof (cases "t = p")
  case True
  with assms(2) show ?thesis by (auto simp: is_word_def)
next
  case False
  with assms(1) have a: "CHR ''a'' \<le> p" "p \<le> CHR ''z''" "(of_char t :: nat) + 32 = of_char p"
    by (auto simp: ci_char_def)
  then have "(97::nat) \<le> of_char p" "(of_char p :: nat) \<le> 122"
    by (simp_all add: less_eq_char_def)
  with a(3) have "(65::nat) \<le> of_char t" "(of_char t :: nat) \<le> 90"
    by linarith+
  then have "CHR ''A'' \<le> t" "t \<le> CHR ''Z''"
    by (simp_all add: less_eq_char_def)
  then show ?thesis by (simp add: is_word_def)
qed

lemma ci_prefix_words:
  "ci_prefix pat s \<Longrightarrow> list_all (\<lambda>p. (CHR ''a'' \<le> p \<and> p \<le> CHR ''z'') \<or> p = CHR ''_'') pat
     \<Longrightarrow> length pat \<le> length s \<and> list_all is_word (take (length pat) s)"
proof (induction pat s rule: ci_prefix.induct)
  case (1 s)
  then show ?case by simp
next
  case (2 p ps)
  then show ?case by simp
next
  case (3 p ps c cs)
  then show ?case by (auto intro: ci_char_word)
qed

text \<open>A match of a key pattern starts with word characters and whitespace up to an equals sign.\<close>

lemma match_key_shape:
  assumes "match_key key s = Some r" and "list_all is_word key"
  shows "\<exists>x y. s = x @ CHR ''='' # y \<and> list_all (\<lambda>c. is_word c \<or> is_space c) x"
proof -
  from assms(1) obtain t where s: "s = key @ t"
    by (auto simp: match_key_def prefix_def split: if_splits)
  with assms(1) obtain y where d: "dropWhile is_space t = CHR ''='' # y"
    by (auto simp: match_key_def split: if_splits list.splits)
  have "t = takeWhile is_space t @ dropWhile is_space t"
    by simp
  with d s have "s = (key @ takeWhile is_space t) @ CHR ''='' # y"
    by simp
  moreover have "list_all (\<lambda>c. is_word c \<or> is_space c) (key @ takeWhile is_space t)"
    using assms(2) by (auto simp: list_all_iff dest: set_takeWhileD)
  ultimately show ?thesis
    by blast
qed

lemma match_should_read_shape:
  assumes "match_should_read s = Some b"
  shows "\<exists>x y. s = x @ CHR ''='' # y \<and> list_all (\<lambda>c. is_word c \<or> is_space c) x"
proof -
  define key where "key = ''should_read_entire_file''"
  have kw: "list_all (\<lambda>p. (CHR ''a'' \<le> p \<and> p \<le> CHR ''z'') \<or> p = CHR ''_'') key"
    by (simp add: key_def)
  from assms have m: "(if ci_prefix key s
      then (case dropWhile is_space (drop (length key) s) of
              [] \<Rightarrow> None
            | c # r \<Rightarrow>
                if c = CHR ''='' then
                  (if ci_prefix ''true'' (dropWhile is_space r) then Some True
                   else if ci_prefix ''false'' (dropWhile is_space r) then Some False
                   else None)
                else None)
      else None) = Some b"
    unfolding match_should_read_def key_def .
  then have ci: "ci_prefix key s"
    by (simp split: if_splits)
  from ci_prefix_words[OF ci kw] have w: "list_all is_word (take (length key) s)"
    by simp
  from m ci obtain y where d: "dropWhile is_space (drop (length key) s) = CHR ''='' # y"
    by (auto split: if_splits list.splits)
  have "drop (length key) s
      = takeWhile is_space (drop (length key) s) @ dropWhile is_space (drop (length key) s)"
    by simp
  with d have "drop (length key) s = takeWhile is_space (drop (length key) s) @ CHR ''='' # y"
    by simp
  then have "take (length key) s @ drop (length key) s
      = (take (length key) s @ takeWhile is_space (drop (length key) s)) @ CHR ''='' # y"
    by simp
  then have "s = (take (length key) s @ takeWhile is_space (drop (length key) s)) @ CHR ''='' # y"
    by (simp only: append_take_drop_id)
  moreover have "list_all (\<lambda>c. is_word c \<or> is_space c)
      (take (length key) s @ takeWhile is_space (drop (length key) s))"
    using w by (auto simp: list_all_iff dest: set_takeWhileD)
  ultimately show ?thesis
    by blast
qed

lemma shape_blocked:
  assumes "t @ c # rest = x @ CHR ''='' # y" and "list_all (\<lambda>c. is_word c \<or> is_space c) x"
    and "CHR ''='' \<notin> set t" and "\<not> is_word c" and "\<not> is_space c" and "c \<noteq> CHR ''=''"
  shows False
proof -
  have eq_no: "\<not> (is_word (CHR ''='') \<or> is_space (CHR ''=''))"
    by (simp add: is_word_def is_space_def)
  have "dropWhile (\<lambda>c. is_word c \<or> is_space c) (x @ CHR ''='' # y) = CHR ''='' # y"
    using assms(2) eq_no by (simp add: list_all_iff dropWhile_append2)
  moreover have "hd (dropWhile (\<lambda>c. is_word c \<or> is_space c) (t @ c # rest)) \<noteq> CHR ''=''"
  proof (cases "list_all (\<lambda>c. is_word c \<or> is_space c) t")
    case True
    then have "dropWhile (\<lambda>c. is_word c \<or> is_space c) (t @ c # rest) = c # rest"
      using assms(4,5) by (simp add: list_all_iff dropWhile_append2)
    with assms(6) show ?thesis by simp
  next
    case False
    then obtain z where z: "z \<in> set t" "\<not> (is_word z \<or> is_space z)"
      by (auto simp: list_all_iff)
    then have "dropWhile (\<lambda>c. is_word c \<or> is_space c) (t @ c # rest)
        = dropWhile (\<lambda>c. is_word c \<or> is_space c) t @ c # rest"
      by (simp add: dropWhile_append1)
    moreover have "dropWhile (\<lambda>c. is_word c \<or> is_space c) t \<noteq> []"
      using z by (auto simp: dropWhile_eq_Nil_conv)
    ultimately have "hd (dropWhile (\<lambda>c. is_word c \<or> is_space c) (t @ c # rest))
        = hd (dropWhile (\<lambda>c. is_word c \<or> is_space c) t)"
      by simp
    moreover have "hd (dropWhile (\<lambda>c. is_word c \<or> is_space c) t) \<in> set t"
      using \<open>dropWhile _ t \<noteq> []\<close> by (metis hd_in_set set_dropWhileD)
    ultimately show ?thesis
      using assms(3) by auto
  qed
  ultimately show False
    using assms(1) by simp
qed

lemma re_search_skip:
  assumes shape: "\<And>s r. m s = Some r \<Longrightarrow>
      \<exists>x y. s = x @ CHR ''='' # y \<and> list_all (\<lambda>c. is_word c \<or> is_space c) x"
    and "CHR ''='' \<notin> set t" and "\<not> is_word c" and "\<not> is_space c" and "c \<noteq> CHR ''=''"
  shows "re_search m (t @ c # rest) = re_search m (c # rest)"
  using assms(2)
proof (induction t)
  case Nil
  then show ?case by simp
next
  case (Cons z zs)
  have "m ((z # zs) @ c # rest) = None"
  proof (cases "m ((z # zs) @ c # rest)")
    case None
    then show ?thesis .
  next
    case (Some r)
    from shape[OF Some] obtain x y where "(z # zs) @ c # rest = x @ CHR ''='' # y"
      "list_all (\<lambda>c. is_word c \<or> is_space c) x"
      by blast
    from shape_blocked[OF this Cons.prems assms(3,4,5)] show ?thesis ..
  qed
  with Cons show ?case
    by simp
qed

lemma skip_quoted:
  assumes "list_all is_word key" and "CHR ''='' \<notin> set t" and "\<not> is_word c" and "\<not> is_space c"
    and "c \<noteq> CHR ''=''"
  shows "re_search (match_quoted key ae) (t @ c # rest) = re_search (match_quoted key ae) (c # rest)"
proof (rule re_search_skip[OF _ assms(2-5)])
  fix s r
  assume "match_quoted key ae s = Some r"
  then obtain r' where "match_key key s = Some r'"
    by (auto simp: match_quoted_def split: option.splits)
  from match_key_shape[OF this assms(1)]
  show "\<exists>x y. s = x @ CHR ''='' # y \<and> list_all (\<lambda>c. is_word c \<or> is_space c) x" .
qed

lemma skip_digits:
  assumes "list_all is_word key" and "CHR ''='' \<notin> set t" and "\<not> is_word c" and "\<not> is_space c"
    and "c \<noteq> CHR ''=''"
  shows "re_search (match_digits key) (t @ c # rest) = re_search (match_digits key) (c # rest)"
proof (rule re_search_skip[OF _ assms(2-5)])
  fix s r
  assume "match_digits key s = Some r"
  then obtain r' where "match_key key s = Some r'"
    by (auto simp: match_digits_def split: option.splits)
  from match_key_shape[OF this assms(1)]
  show "\<exists>x y. s = x @ CHR ''='' # y \<and> list_all (\<lambda>c. is_word c \<or> is_space c) x" .
qed

lemma skip_should_read:
  assumes "CHR ''='' \<notin> set t" and "\<not> is_word c" and "\<not> is_space c" and "c \<noteq> CHR ''=''"
  shows "re_search match_should_read (t @ c # rest) = re_search match_should_read (c # rest)"
  by (rule re_search_skip[OF match_should_read_shape assms])

lemma digits_not_space: "list_all is_digit ds \<Longrightarrow> ds \<noteq> [] \<Longrightarrow> dropWhile is_space (ds @ r) = ds @ r"
  by (cases ds) (auto simp: is_digit_def is_space_def)

lemma digits_taken:
  "list_all is_digit ds \<Longrightarrow> \<not> is_digit c \<Longrightarrow> takeWhile is_digit (ds @ c # r) = ds"
  by (induction ds) auto

lemma no_eq_in_digits: "list_all is_digit ds \<Longrightarrow> CHR ''='' \<notin> set ds"
  by (auto simp: list_all_iff is_digit_def)

lemma unquoted_taken:
  "DQ \<notin> set v \<Longrightarrow> SQ \<notin> set v \<Longrightarrow> takeWhile (\<lambda>c. \<not> is_quote c) (v @ DQ # r) = v"
  "DQ \<notin> set v \<Longrightarrow> SQ \<notin> set v \<Longrightarrow> dropWhile (\<lambda>c. \<not> is_quote c) (v @ DQ # r) = DQ # r"
  by (induction v) (auto simp: is_quote_def)

lemma search_target_file:
  assumes "tf \<noteq> []" and "DQ \<notin> set tf" and "SQ \<notin> set tf"
  shows "re_search (match_quoted ''target_file'' False) (''target_file='' @ [DQ] @ tf @ [DQ] @ rest)
           = Some tf"
proof -
  have "match_quoted ''target_file'' False (''target_file='' @ DQ # tf @ DQ # rest) = Some tf"
    using assms
    by (simp add: match_quoted_def match_key_def is_space_def unquoted_taken)
       (simp add: is_quote_def DQ_def)
  then show ?thesis
    by simp
qed


lemma sep_facts:
  "\<not> is_word DQ" "\<not> is_space DQ" "DQ \<noteq> CHR ''=''"
  "\<not> is_word (CHR '','')" "\<not> is_space (CHR '','')" "CHR '','' \<noteq> CHR ''=''"
  by (simp_all add: is_word_def is_space_def DQ_def)

lemma key_words:
  "list_all is_word ''target_file''" "list_all is_word ''start_line_one_indexed''"
  "list_all is_word ''end_line_one_indexed_inclusive''" "list_all is_word ''explanation''"
  by (simp_all add: is_word_def)

lemma search_should_read:
  assumes "CHR ''='' \<notin> set tf"
  shows "re_search match_should_read
           (''target_file='' @ [DQ] @ tf @ [DQ] @ '', should_read_entire_file=''
              @ (if b then ''true'' else ''false'') @ '','' @ rest) = Some b"
proof -
  have a: "re_search match_should_read (''target_file='' @ [DQ] @ tf @ DQ # r)
      = re_search match_should_read (DQ # r)" for r
  proof -
    have "re_search match_should_read (''target_file='' @ [DQ] @ tf @ DQ # r)
        = re_search match_should_read (tf @ DQ # r)"
      by (simp add: match_should_read_def ci_char_def DQ_def)
    then show ?thesis
      by (simp only: skip_should_read[OF assms sep_facts(1-3)])
  qed
  have b: "re_search match_should_read
      (DQ # '', should_read_entire_file='' @ (if b then ''true'' else ''false'') @ '','' @ rest)
      = Some b"
    by (simp add: match_should_read_def ci_char_def DQ_def is_space_def)
  show ?thesis
    using a[of "'', should_read_entire_file='' @ (if b then ''true'' else ''false'') @ '','' @ rest"] b
    by simp
qed


lemma digit_value_digit_char: "d < 10 \<Longrightarrow> digit_value (digit_char d) = d"
proof -
  assume "d < 10"
  then have "d \<in> {0, 1, 2, 3, 4, 5, 6, 7, 8, 9}"
    by auto
  then show ?thesis
    by (auto simp: digit_char_def digit_value_def)
qed

lemma foldl_str_nat: "foldl (\<lambda>n c. 10 * n + digit_value c) 0 (str_nat n) = n"
proof (induction n rule: str_nat.induct)
  case (1 n)
  show ?case
  proof (cases "n < 10")
    case True
    then show ?thesis
      by (subst str_nat.simps) (simp add: digit_value_digit_char)
  next
    case False
    with 1 show ?thesis
      by (subst str_nat.simps) (simp add: digit_value_digit_char)
  qed
qed

lemma int_of_digits_str_nat: "int_of_digits (str_nat n) = int n"
  by (simp add: int_of_digits_def foldl_str_nat)

lemma decimal_digits_int: "decimal_digits (int n) = length (str_nat n)"
  by (simp add: decimal_digits_def)

lemma py_int_str_nat:
  "py_int (str_nat n)
     = (if int_max_str_digits < decimal_digits (int n) then None else Some (int n))"
  by (simp add: py_int_def int_of_digits_str_nat decimal_digits_int)

lemma match_digits_here:
  assumes "list_all is_digit ds" and "ds \<noteq> []" and "\<not> is_digit c"
  shows "match_digits key (key @ CHR ''='' # ds @ c # rest) = Some ds"
  using assms
  by (simp add: match_digits_def match_key_def is_space_def digits_not_space digits_taken)

lemma re_search_here: "m s = Some x \<Longrightarrow> re_search m s = Some x"
  by (cases s) simp_all

lemma search_start_line:
  assumes "CHR ''='' \<notin> set tf"
  shows "re_search (match_digits ''start_line_one_indexed'')
           (''target_file='' @ [DQ] @ tf @ [DQ] @ '', should_read_entire_file=''
              @ (if b then ''true'' else ''false'') @ '', start_line_one_indexed='' @ str_nat s
              @ '','' @ rest) = Some (str_nat s)"
proof -
  let ?m = "match_digits ''start_line_one_indexed''"
  have a: "re_search ?m (''target_file='' @ [DQ] @ tf @ DQ # r) = re_search ?m (DQ # r)" for r
  proof -
    have "re_search ?m (''target_file='' @ [DQ] @ tf @ DQ # r) = re_search ?m (tf @ DQ # r)"
      by (simp add: match_digits_def match_key_def DQ_def)
    then show ?thesis
      by (simp only: skip_digits[OF key_words(2) assms sep_facts(1-3)])
  qed
  have b: "re_search ?m (DQ # '', should_read_entire_file='' @ (if b then ''true'' else ''false'')
        @ '', '' @ r) = re_search ?m r" for r
    by (simp add: match_digits_def match_key_def DQ_def)
  have c: "re_search ?m (''start_line_one_indexed'' @ CHR ''='' # str_nat s @ CHR '','' # rest)
      = Some (str_nat s)"
  proof -
    have "?m (''start_line_one_indexed'' @ CHR ''='' # str_nat s @ CHR '','' # rest)
        = Some (str_nat s)"
      by (rule match_digits_here[OF str_nat_digits str_nat_nonempty]) (simp add: is_digit_def)
    from re_search_here[of ?m, OF this] show ?thesis .
  qed
  show ?thesis
    using a[of "'', should_read_entire_file='' @ (if b then ''true'' else ''false'')
        @ '', start_line_one_indexed='' @ str_nat s @ '','' @ rest"]
      b[of "''start_line_one_indexed='' @ str_nat s @ '','' @ rest"] c
    by simp
qed


lemma search_end_line:
  assumes "CHR ''='' \<notin> set tf"
  shows "re_search (match_digits ''end_line_one_indexed_inclusive'')
           (''target_file='' @ [DQ] @ tf @ [DQ] @ '', should_read_entire_file=''
              @ (if b then ''true'' else ''false'') @ '', start_line_one_indexed='' @ str_nat s
              @ '', end_line_one_indexed_inclusive='' @ str_nat e @ '','' @ rest)
           = Some (str_nat e)"
proof -
  let ?m = "match_digits ''end_line_one_indexed_inclusive''"
  have a: "re_search ?m (''target_file='' @ [DQ] @ tf @ DQ # r) = re_search ?m (DQ # r)" for r
  proof -
    have "re_search ?m (''target_file='' @ [DQ] @ tf @ DQ # r) = re_search ?m (tf @ DQ # r)"
      by (simp add: match_digits_def match_key_def DQ_def)
    then show ?thesis
      by (simp only: skip_digits[OF key_words(3) assms sep_facts(1-3)])
  qed
  have b: "re_search ?m (DQ # '', should_read_entire_file='' @ (if b then ''true'' else ''false'')
        @ '', start_line_one_indexed='' @ r) = re_search ?m r" for r
    by (simp add: match_digits_def match_key_def DQ_def)
  have c: "re_search ?m (str_nat s @ CHR '','' # r) = re_search ?m (CHR '','' # r)" for r
    by (rule skip_digits[OF key_words(3) no_eq_in_digits[OF str_nat_digits] sep_facts(4-6)])
  have d: "re_search ?m (CHR '','' # CHR '' '' # r) = re_search ?m r" for r
    by (simp add: match_digits_def match_key_def)
  have e: "re_search ?m (''end_line_one_indexed_inclusive'' @ CHR ''='' # str_nat e @ CHR '','' # rest)
      = Some (str_nat e)"
  proof -
    have "?m (''end_line_one_indexed_inclusive'' @ CHR ''='' # str_nat e @ CHR '','' # rest)
        = Some (str_nat e)"
      by (rule match_digits_here[OF str_nat_digits str_nat_nonempty]) (simp add: is_digit_def)
    from re_search_here[of ?m, OF this] show ?thesis .
  qed
  have "re_search ?m (''target_file='' @ [DQ] @ tf @ [DQ] @ '', should_read_entire_file=''
              @ (if b then ''true'' else ''false'') @ '', start_line_one_indexed='' @ str_nat s
              @ '', end_line_one_indexed_inclusive='' @ str_nat e @ '','' @ rest)
      = re_search ?m (''target_file='' @ [DQ] @ tf @ DQ # ('', should_read_entire_file=''
              @ (if b then ''true'' else ''false'') @ '', start_line_one_indexed='' @ (str_nat s
              @ CHR '','' # CHR '' '' # (''end_line_one_indexed_inclusive'' @ CHR ''='' # str_nat e
              @ CHR '','' # rest))))"
    by simp
  also have "\<dots> = Some (str_nat e)"
    by (simp only: a b c d e)
  finally show ?thesis .
qed

lemma match_quoted_here:
  assumes "ex \<noteq> []" and "DQ \<notin> set ex" and "SQ \<notin> set ex"
  shows "match_quoted ''explanation'' False (''explanation'' @ CHR ''='' # DQ # ex @ DQ # rest)
           = Some ex"
  using assms
  by (simp add: match_quoted_def match_key_def is_space_def unquoted_taken)
     (simp add: is_quote_def DQ_def)

lemma search_explanation:
  assumes "CHR ''='' \<notin> set tf" and "ex \<noteq> []" and "DQ \<notin> set ex" and "SQ \<notin> set ex"
  shows "re_search (match_quoted ''explanation'' False)
           (''target_file='' @ [DQ] @ tf @ [DQ] @ '', should_read_entire_file=''
              @ (if b then ''true'' else ''false'') @ '', start_line_one_indexed='' @ str_nat s
              @ '', end_line_one_indexed_inclusive='' @ str_nat e @ '', explanation='' @ [DQ] @ ex
              @ DQ # rest) = Some ex"
proof -
  let ?m = "match_quoted ''explanation'' False"
  have a: "re_search ?m (''target_file='' @ [DQ] @ tf @ DQ # r) = re_search ?m (DQ # r)" for r
  proof -
    have "re_search ?m (''target_file='' @ [DQ] @ tf @ DQ # r) = re_search ?m (tf @ DQ # r)"
      by (simp add: match_quoted_def match_key_def DQ_def)
    then show ?thesis
      by (simp only: skip_quoted[OF key_words(4) assms(1) sep_facts(1-3)])
  qed
  have b: "re_search ?m (DQ # '', should_read_entire_file='' @ (if b then ''true'' else ''false'')
        @ '', start_line_one_indexed='' @ r) = re_search ?m r" for r
    by (simp add: match_quoted_def match_key_def DQ_def)
  have c: "re_search ?m (str_nat n @ CHR '','' # r) = re_search ?m (CHR '','' # r)" for r n
    by (rule skip_quoted[OF key_words(4) no_eq_in_digits[OF str_nat_digits] sep_facts(4-6)])
  have d: "re_search ?m (CHR '','' # '' end_line_one_indexed_inclusive='' @ r) = re_search ?m r" for r
    by (simp add: match_quoted_def match_key_def)
  have d': "re_search ?m (CHR '','' # CHR '' '' # r) = re_search ?m r" for r
    by (simp add: match_quoted_def match_key_def)
  have e: "re_search ?m (''explanation'' @ CHR ''='' # DQ # ex @ DQ # rest) = Some ex"
    by (rule re_search_here[of ?m, OF match_quoted_here[OF assms(2-4)]])
  have "re_search ?m (''target_file='' @ [DQ] @ tf @ [DQ] @ '', should_read_entire_file=''
              @ (if b then ''true'' else ''false'') @ '', start_line_one_indexed='' @ str_nat s
              @ '', end_line_one_indexed_inclusive='' @ str_nat e @ '', explanation='' @ [DQ] @ ex
              @ DQ # rest)
      = re_search ?m (''target_file='' @ [DQ] @ tf @ DQ # ('', should_read_entire_file=''
              @ (if b then ''true'' else ''false'') @ '', start_line_one_indexed='' @ (str_nat s
              @ CHR '','' # ('' end_line_one_indexed_inclusive='' @ (str_nat e
              @ CHR '','' # CHR '' '' # (''explanation'' @ CHR ''='' # DQ # ex @ DQ # rest))))))"
    by simp
  also have "\<dots> = Some ex"
    by (simp only: a b c d d' e)
  finally show ?thesis .
qed

subsection \<open>A call in the documented form\<close>

lemma read_file_args_searches:
  assumes "tf \<noteq> []" and "DQ \<notin> set tf" and "SQ \<notin> set tf" and "CHR ''='' \<notin> set tf"
    and "ex \<noteq> []" and "DQ \<notin> set ex" and "SQ \<notin> set ex"
  shows "re_search (match_quoted ''target_file'' False) (read_file_args tf b s e ex) = Some tf"
    and "re_search match_should_read (read_file_args tf b s e ex) = Some b"
    and "re_search (match_digits ''start_line_one_indexed'') (read_file_args tf b s e ex)
           = Some (str_nat s)"
    and "re_search (match_digits ''end_line_one_indexed_inclusive'') (read_file_args tf b s e ex)
           = Some (str_nat e)"
    and "re_search (match_quoted ''explanation'' False) (read_file_args tf b s e ex) = Some ex"
proof -
  show "re_search (match_quoted ''target_file'' False) (read_file_args tf b s e ex) = Some tf"
    using search_target_file[OF assms(1-3)] by (simp add: read_file_args_def)
  show "re_search match_should_read (read_file_args tf b s e ex) = Some b"
    using search_should_read[OF assms(4), of b "'' start_line_one_indexed='' @ str_nat s
       @ '', end_line_one_indexed_inclusive='' @ str_nat e @ '', explanation='' @ [DQ] @ ex @ [DQ]"]
    by (simp add: read_file_args_def)
  show "re_search (match_digits ''start_line_one_indexed'') (read_file_args tf b s e ex)
      = Some (str_nat s)"
    using search_start_line[OF assms(4), of b s "'' end_line_one_indexed_inclusive='' @ str_nat e
       @ '', explanation='' @ [DQ] @ ex @ [DQ]"]
    by (simp add: read_file_args_def)
  show "re_search (match_digits ''end_line_one_indexed_inclusive'') (read_file_args tf b s e ex)
      = Some (str_nat e)"
    using search_end_line[OF assms(4), of b s e "'' explanation='' @ [DQ] @ ex @ [DQ]"]
    by (simp add: read_file_args_def)
  show "re_search (match_quoted ''explanation'' False) (read_file_args tf b s e ex) = Some ex"
    using search_explanation[OF assms(4-7), of b s e "[]"]
    by (simp add: read_file_args_def)
qed

lemma parse_read_file_args:
  assumes "tf \<noteq> []" and "DQ \<notin> set tf" and "SQ \<notin> set tf" and "CHR ''='' \<notin> set tf"
    and "ex \<noteq> []" and "DQ \<notin> set ex" and "SQ \<notin> set ex"
    and "decimal_digits (int s) \<le> int_max_str_digits"
    and "decimal_digits (int e) \<le> int_max_str_digits"
  shows "parse_read_file (read_file_args tf b s e ex)
           = Some (IdText (''read_file:'' @ strip tf @ '':'' @ str_nat s @ '':'' @ str_nat e),
                   (''read_file'',
                    [(''target_file'', VStr (strip tf)), (''should_read_entire_file'', VBool b),
                     (''start_line_one_indexed'', VInt (int s)),
                     (''end_line_one_indexed_inclusive'', VInt (int e)),
                     (''explanation'', VStr ex)]))"
  using assms(8,9)
  by (simp add: parse_read_file_def read_file_args_searches[OF assms(1-7)] py_int_str_nat Let_def
      read_file_params_def py_str_int_Some str_int_def)

text \<open>A line number of more than 4300 digits: \<open>int\<close> raises, and the call is dropped.\<close>

lemma parse_read_file_args_long:
  assumes "tf \<noteq> []" and "DQ \<notin> set tf" and "SQ \<notin> set tf" and "CHR ''='' \<notin> set tf"
    and "ex \<noteq> []" and "DQ \<notin> set ex" and "SQ \<notin> set ex"
    and "int_max_str_digits < decimal_digits (int s) \<or> int_max_str_digits < decimal_digits (int e)"
  shows "parse_read_file (read_file_args tf b s e ex) = None"
  using assms(8)
  by (auto simp: parse_read_file_def read_file_args_searches[OF assms(1-7)] py_int_str_nat Let_def)

lemma collect_calls_seen:
  assumes "\<And>m. m \<in> set ms \<Longrightarrow> \<exists>cid call. parse_call m = Some (cid, call) \<and> cid \<in> set seen"
  shows "collect_calls ms seen = []"
  using assms
proof (induction ms)
  case Nil
  then show ?case by simp
next
  case (Cons m ms)
  from Cons.prems[of m] obtain cid call where "parse_call m = Some (cid, call)" "cid \<in> set seen"
    by auto
  moreover have "collect_calls ms seen = []"
    using Cons.prems by (intro Cons.IH) auto
  ultimately show ?case
    by simp
qed

lemma collect_calls_dropped:
  assumes "\<And>m. m \<in> set ms \<Longrightarrow> parse_call m = None"
  shows "collect_calls ms seen = []"
  using assms by (induction ms) simp_all

lemma collect_calls_first:
  assumes "parse_call m = Some (cid, call)"
    and "\<And>m'. m' \<in> set ms \<Longrightarrow> \<exists>call'. parse_call m' = Some (cid, call')"
  shows "collect_calls (m # ms) [] = [call]"
proof -
  have "collect_calls ms [cid] = []"
    using assms(2) by (intro collect_calls_seen) auto
  with assms(1) show ?thesis
    by simp
qed

lemma str_nat_chars: "c \<in> set (str_nat n) \<Longrightarrow> CHR ''0'' \<le> c \<and> c \<le> CHR ''9''"
  using digits_no[OF str_nat_digits] by blast

lemma no_paren_in_args:
  assumes "CHR '')'' \<notin> set tf" and "CHR '')'' \<notin> set ex"
  shows "CHR '')'' \<notin> set (read_file_args tf b s e ex)"
  using assms str_nat_chars[of "CHR '')''" s] str_nat_chars[of "CHR '')''" e]
  by (auto simp: read_file_args_def DQ_def)

lemma matches_anywhere_args:
  assumes "\<not> sublist ''TOOL:'' tf" and "\<not> sublist ''TOOL:'' ex"
  shows "matches_anywhere (read_file_args tf b s e ex @ CHR '')'' # r) = matches_anywhere r"
proof -
  have dq: "DQ \<notin> set ''TOOL:''"
    by (simp add: DQ_def)
  have mid: "CHR ''T'' \<notin> set ('', should_read_entire_file='' @ (if b then ''true'' else ''false'')
      @ '', start_line_one_indexed='' @ str_nat s @ '', end_line_one_indexed_inclusive=''
      @ str_nat e @ '', explanation='' @ [DQ])"
    using str_nat_no_T[of s] str_nat_no_T[of e] by (simp add: DQ_def)
  have "read_file_args tf b s e ex @ CHR '')'' # r
      = ''target_file='' @ [DQ] @ (tf @ DQ # (('', should_read_entire_file=''
          @ (if b then ''true'' else ''false'')
          @ '', start_line_one_indexed='' @ str_nat s @ '', end_line_one_indexed_inclusive=''
          @ str_nat e @ '', explanation='' @ [DQ]) @ (ex @ DQ # ('')'' @ r))))"
    by (simp add: read_file_args_def)
  also have "matches_anywhere \<dots> = matches_anywhere r"
    using matches_anywhere_no_T[of "''target_file='' @ [DQ]"]
      matches_anywhere_separated[OF assms(1) dq] matches_anywhere_no_T[OF mid]
      matches_anywhere_separated[OF assms(2) dq] matches_anywhere_no_T[of "'')''" r]
    by (simp add: DQ_def)
  finally show ?thesis .
qed

lemma matches_anywhere_call:
  assumes "\<not> sublist ''TOOL:'' pre" and "plain_value tf" and "plain_value ex"
  shows "matches_anywhere (pre @ read_file_call tf b s e ex @ rest)
           = (''read_file'', read_file_args tf b s e ex) # matches_anywhere rest"
proof -
  let ?args = "read_file_args tf b s e ex"
  have np: "CHR '')'' \<notin> set ?args"
    using assms(2,3) by (intro no_paren_in_args) (simp_all add: plain_value_def)
  have "matches_anywhere (pre @ ''TOOL:'' @ (''read_file('' @ ?args @ '')'' @ rest))
      = matches_anywhere (''TOOL:'' @ (''read_file('' @ ?args @ '')'' @ rest))"
    by (rule matches_anywhere_before_mark[OF assms(1)])
  moreover have "matches_anywhere (''TOOL:read_file('' @ ?args @ '')'' @ rest)
      = (''read_file'', ?args) # matches_anywhere (''OOL:read_file('' @ (?args @ CHR '')'' # rest))"
    using match_tool_call[OF np, of rest] by simp
  moreover have "matches_anywhere (''OOL:read_file('' @ (?args @ CHR '')'' # rest))
      = matches_anywhere (?args @ CHR '')'' # rest)"
    by (rule matches_anywhere_no_T) simp
  moreover have "matches_anywhere (?args @ CHR '')'' # rest) = matches_anywhere rest"
    using assms(2,3) by (intro matches_anywhere_args) (simp_all add: plain_value_def)
  ultimately show ?thesis
    by (simp add: read_file_call_def)
qed

lemma findall_tool_read_file_call:
  assumes "\<not> sublist ''TOOL:'' pre" and "plain_value tf" and "plain_value ex"
  shows "findall_tool (pre @ read_file_call tf b s e ex @ rest)
           = (''read_file'', read_file_args tf b s e ex) # findall_tool rest"
proof -
  have np: "CHR '')'' \<notin> set (read_file_args tf b s e ex)"
    using assms(2,3) by (intro no_paren_in_args) (simp_all add: plain_value_def)
  from findall_tool_call[OF assms(1) np, of rest] show ?thesis
    by (simp add: read_file_call_def)
qed

lemma parse_call_read_file_call:
  assumes "plain_value tf" and "CHR ''='' \<notin> set tf" and "plain_value ex"
    and "decimal_digits (int s) \<le> int_max_str_digits"
    and "decimal_digits (int e) \<le> int_max_str_digits"
  shows "parse_call (''read_file'', read_file_args tf b s e ex)
           = Some (IdText (''read_file:'' @ strip tf @ '':'' @ str_nat s @ '':'' @ str_nat e),
                   (''read_file'',
                    [(''target_file'', VStr (strip tf)), (''should_read_entire_file'', VBool b),
                     (''start_line_one_indexed'', VInt (int s)),
                     (''end_line_one_indexed_inclusive'', VInt (int e)),
                     (''explanation'', VStr ex)]))"
  using assms parse_read_file_args[of tf ex s e b]
  by (simp add: parse_call_def plain_value_def)

lemma parse_call_read_file_call_long:
  assumes "plain_value tf" and "CHR ''='' \<notin> set tf" and "plain_value ex"
    and "int_max_str_digits < decimal_digits (int s) \<or> int_max_str_digits < decimal_digits (int e)"
  shows "parse_call (''read_file'', read_file_args tf b s e ex) = None"
  using assms parse_read_file_args_long[of tf ex s e b]
  by (simp add: parse_call_def plain_value_def)

subsection \<open>C3: one tool call per read_file call\<close>

text \<open>
  Let a \<open>read_file\<close> call be written in the form the system prompt documents,
  \<open>TOOL:read_file(target_file="F", should_read_entire_file=B, start_line_one_indexed=S,
  end_line_one_indexed_inclusive=E, explanation="X")\<close>, where \<open>F\<close> and \<open>X\<close> are not empty and
  hold no quote of either kind, no closing parenthesis and no \<open>TOOL:\<close>, \<open>F\<close> holds no
  equals sign, and \<open>S\<close> and \<open>E\<close> have at most 4300 digits. In any response whose text
  before and after the call holds no \<open>TOOL:\<close> (the call may stand in plain text or inside
  a code fence), extraction yields exactly one ToolCall, with \<open>F\<close> (trimmed), \<open>B\<close>, \<open>S\<close>,
  \<open>E\<close> and \<open>X\<close> as its parameters. With a second such call for the same \<open>F\<close>, \<open>S\<close> and \<open>E\<close>
  in the response, extraction still yields exactly one ToolCall, the first.
\<close>

lemma parse_tool_calls_read_file:
  "(plain_value tf \<and> CHR ''='' \<notin> set tf \<and> plain_value ex
      \<and> decimal_digits (int s) \<le> int_max_str_digits
      \<and> decimal_digits (int e) \<le> int_max_str_digits
      \<and> \<not> sublist ''TOOL:'' pre \<and> \<not> sublist ''TOOL:'' post \<longrightarrow>
    parse_tool_calls (pre @ read_file_call tf b s e ex @ post)
      = [(''read_file'',
          [(''target_file'', VStr (strip tf)), (''should_read_entire_file'', VBool b),
           (''start_line_one_indexed'', VInt (int s)),
           (''end_line_one_indexed_inclusive'', VInt (int e)),
           (''explanation'', VStr ex)])])
   \<and> (plain_value tf \<and> CHR ''='' \<notin> set tf \<and> plain_value ex \<and> plain_value ex'
      \<and> decimal_digits (int s) \<le> int_max_str_digits
      \<and> decimal_digits (int e) \<le> int_max_str_digits
      \<and> \<not> sublist ''TOOL:'' pre \<and> \<not> sublist ''TOOL:'' mid \<and> \<not> sublist ''TOOL:'' post \<longrightarrow>
    parse_tool_calls (pre @ read_file_call tf b s e ex @ mid @ read_file_call tf b' s e ex' @ post)
      = [(''read_file'',
          [(''target_file'', VStr (strip tf)), (''should_read_entire_file'', VBool b),
           (''start_line_one_indexed'', VInt (int s)),
           (''end_line_one_indexed_inclusive'', VInt (int e)),
           (''explanation'', VStr ex)])])"
proof (intro conjI impI)
  let ?call = "(''read_file'',
          [(''target_file'', VStr (strip tf)), (''should_read_entire_file'', VBool b),
           (''start_line_one_indexed'', VInt (int s)),
           (''end_line_one_indexed_inclusive'', VInt (int e)),
           (''explanation'', VStr ex)])"
  let ?m = "(''read_file'', read_file_args tf b s e ex)"
  let ?m' = "(''read_file'', read_file_args tf b' s e ex')"
  let ?cid = "IdText (''read_file:'' @ strip tf @ '':'' @ str_nat s @ '':'' @ str_nat e)"
  {
    assume h: "plain_value tf \<and> CHR ''='' \<notin> set tf \<and> plain_value ex
      \<and> decimal_digits (int s) \<le> int_max_str_digits
      \<and> decimal_digits (int e) \<le> int_max_str_digits
      \<and> \<not> sublist ''TOOL:'' pre \<and> \<not> sublist ''TOOL:'' post"
    let ?r = "pre @ read_file_call tf b s e ex @ post"
    have any: "matches_anywhere ?r = [?m]"
      using h matches_anywhere_call[of pre tf ex b s e post] matches_anywhere_no_mark[of post]
      by simp
    have fa: "findall_tool ?r = [?m]"
      using h findall_tool_read_file_call[of pre tf ex b s e post] findall_tool_no_mark[of post]
      by simp
    then obtain ms where ms: "all_matches ?r = ?m # ms"
      by (simp add: all_matches_def)
    with all_matches_anywhere[of ?r] any have sub: "set ms \<subseteq> {?m}"
      by auto
    have pc: "parse_call ?m = Some (?cid, ?call)"
      using h by (intro parse_call_read_file_call) simp_all
    have "collect_calls (?m # ms) [] = [?call]"
      using sub pc by (intro collect_calls_first[where cid = ?cid]) auto
    with ms show "parse_tool_calls ?r = [?call]"
      by (simp add: parse_tool_calls_def)
  }
  {
    assume h: "plain_value tf \<and> CHR ''='' \<notin> set tf \<and> plain_value ex \<and> plain_value ex'
      \<and> decimal_digits (int s) \<le> int_max_str_digits
      \<and> decimal_digits (int e) \<le> int_max_str_digits
      \<and> \<not> sublist ''TOOL:'' pre \<and> \<not> sublist ''TOOL:'' mid \<and> \<not> sublist ''TOOL:'' post"
    let ?r = "pre @ read_file_call tf b s e ex @ mid @ read_file_call tf b' s e ex' @ post"
    have any: "matches_anywhere ?r = [?m, ?m']"
      using h matches_anywhere_call[of pre tf ex b s e "mid @ read_file_call tf b' s e ex' @ post"]
        matches_anywhere_call[of mid tf ex' b' s e post] matches_anywhere_no_mark[of post]
      by simp
    have fa: "findall_tool ?r = [?m, ?m']"
      using h findall_tool_read_file_call[of pre tf ex b s e
          "mid @ read_file_call tf b' s e ex' @ post"]
        findall_tool_read_file_call[of mid tf ex' b' s e post] findall_tool_no_mark[of post]
      by simp
    then obtain ms where ms: "all_matches ?r = ?m # ?m' # ms"
      by (simp add: all_matches_def)
    with all_matches_anywhere[of ?r] any have sub: "set (?m' # ms) \<subseteq> {?m, ?m'}"
      by auto
    have pc: "parse_call ?m = Some (?cid, ?call)"
      using h by (intro parse_call_read_file_call) simp_all
    have pc': "\<exists>call'. parse_call ?m' = Some (?cid, call')"
      using h parse_call_read_file_call[of tf ex' s e b'] by simp
    have "collect_calls (?m # ?m' # ms) [] = [?call]"
      using sub pc pc' by (intro collect_calls_first[where cid = ?cid]) auto
    with ms show "parse_tool_calls ?r = [?call]"
      by (simp add: parse_tool_calls_def)
  }
qed

text \<open>The call of the system prompt's example, in plain text, inside a code fence, and
  followed by a second call for the same file and lines.\<close>

lemma parse_tool_calls_read_file_example:
  "parse_tool_calls (''I will read the file. ''
         @ read_file_call ''context.md'' False 1 10 ''Reading the first 10 lines'' @ [])
       = [(''read_file'',
           [(''target_file'', VStr ''context.md''), (''should_read_entire_file'', VBool False),
            (''start_line_one_indexed'', VInt 1), (''end_line_one_indexed_inclusive'', VInt 10),
            (''explanation'', VStr ''Reading the first 10 lines'')])]"
  "parse_tool_calls ((''```python'' @ [NL])
         @ read_file_call ''context.md'' False 1 10 ''Reading the first 10 lines''
         @ ([NL] @ ''```''))
       = [(''read_file'',
           [(''target_file'', VStr ''context.md''), (''should_read_entire_file'', VBool False),
            (''start_line_one_indexed'', VInt 1), (''end_line_one_indexed_inclusive'', VInt 10),
            (''explanation'', VStr ''Reading the first 10 lines'')])]"
  "parse_tool_calls (''I will read the file. ''
         @ read_file_call ''context.md'' False 1 10 ''Reading the first 10 lines'' @ '' and ''
         @ read_file_call ''context.md'' True 1 10 ''again'' @ [])
       = [(''read_file'',
           [(''target_file'', VStr ''context.md''), (''should_read_entire_file'', VBool False),
            (''start_line_one_indexed'', VInt 1), (''end_line_one_indexed_inclusive'', VInt 10),
            (''explanation'', VStr ''Reading the first 10 lines'')])]"
proof -
  have v: "plain_value ''context.md''" "CHR ''='' \<notin> set ''context.md''"
    "plain_value ''Reading the first 10 lines''" "plain_value ''again''"
    by (simp_all add: plain_value_def DQ_def SQ_def find_sub_None[symmetric])
  have d: "decimal_digits (int 1) \<le> int_max_str_digits"
    "decimal_digits (int 10) \<le> int_max_str_digits"
    by (simp_all add: decimal_digits_def str_nat.simps int_max_str_digits_def)
  have n: "\<not> sublist ''TOOL:'' ''I will read the file. ''"
    "\<not> sublist ''TOOL:'' (''```python'' @ [NL])" "\<not> sublist ''TOOL:'' ([NL] @ ''```'')"
    "\<not> sublist ''TOOL:'' '' and ''" "\<not> sublist ''TOOL:'' []"
    by (simp_all add: find_sub_None[symmetric] NL_def)
  have s: "strip ''context.md'' = ''context.md''"
    by (simp add: strip_def rstrip_def lstrip_def is_space_def)
  note t1 = parse_tool_calls_read_file [of "''context.md''" "''Reading the first 10 lines''"
      1 10 "''I will read the file. ''" "[]" False "''again''" "'' and ''" True]
  note t2 = parse_tool_calls_read_file [of "''context.md''" "''Reading the first 10 lines''"
      1 10 "''```python'' @ [NL]" "[NL] @ ''```''" False "''again''" "'' and ''" True]
  have a: "parse_tool_calls (''I will read the file. ''
         @ read_file_call ''context.md'' False 1 10 ''Reading the first 10 lines'' @ [])
       = [(''read_file'',
           [(''target_file'', VStr (strip ''context.md'')), (''should_read_entire_file'', VBool False),
            (''start_line_one_indexed'', VInt (int 1)), (''end_line_one_indexed_inclusive'', VInt (int 10)),
            (''explanation'', VStr ''Reading the first 10 lines'')])]"
    using t1 v d n by blast
  have b: "parse_tool_calls ((''```python'' @ [NL])
         @ read_file_call ''context.md'' False 1 10 ''Reading the first 10 lines''
         @ ([NL] @ ''```''))
       = [(''read_file'',
           [(''target_file'', VStr (strip ''context.md'')), (''should_read_entire_file'', VBool False),
            (''start_line_one_indexed'', VInt (int 1)), (''end_line_one_indexed_inclusive'', VInt (int 10)),
            (''explanation'', VStr ''Reading the first 10 lines'')])]"
    using t2 v d n by blast
  have c: "parse_tool_calls (''I will read the file. ''
         @ read_file_call ''context.md'' False 1 10 ''Reading the first 10 lines'' @ '' and ''
         @ read_file_call ''context.md'' True 1 10 ''again'' @ [])
       = [(''read_file'',
           [(''target_file'', VStr (strip ''context.md'')), (''should_read_entire_file'', VBool False),
            (''start_line_one_indexed'', VInt (int 1)), (''end_line_one_indexed_inclusive'', VInt (int 10)),
            (''explanation'', VStr ''Reading the first 10 lines'')])]"
    using t1 v d n by blast
  have i: "int 1 = 1" "int 10 = 10"
    by simp_all
  from a show "parse_tool_calls (''I will read the file. ''
         @ read_file_call ''context.md'' False 1 10 ''Reading the first 10 lines'' @ [])
       = [(''read_file'',
           [(''target_file'', VStr ''context.md''), (''should_read_entire_file'', VBool False),
            (''start_line_one_indexed'', VInt 1), (''end_line_one_indexed_inclusive'', VInt 10),
            (''explanation'', VStr ''Reading the first 10 lines'')])]"
    unfolding s i .
  from b show "parse_tool_calls ((''```python'' @ [NL])
         @ read_file_call ''context.md'' False 1 10 ''Reading the first 10 lines''
         @ ([NL] @ ''```''))
       = [(''read_file'',
           [(''target_file'', VStr ''context.md''), (''should_read_entire_file'', VBool False),
            (''start_line_one_indexed'', VInt 1), (''end_line_one_indexed_inclusive'', VInt 10),
            (''explanation'', VStr ''Reading the first 10 lines'')])]"
    unfolding s i .
  from c show "parse_tool_calls (''I will read the file. ''
         @ read_file_call ''context.md'' False 1 10 ''Reading the first 10 lines'' @ '' and ''
         @ read_file_call ''context.md'' True 1 10 ''again'' @ [])
       = [(''read_file'',
           [(''target_file'', VStr ''context.md''), (''should_read_entire_file'', VBool False),
            (''start_line_one_indexed'', VInt 1), (''end_line_one_indexed_inclusive'', VInt 10),
            (''explanation'', VStr ''Reading the first 10 lines'')])]"
    unfolding s i .
qed

text \<open>With a line number of more than 4300 digits the same call yields no ToolCall:
  \<open>int\<close> raises \<open>ValueError\<close>, and the loop body drops the call.\<close>

lemma parse_tool_calls_long_line_number:
  assumes "plain_value tf" and "CHR ''='' \<notin> set tf" and "plain_value ex"
    and "\<not> sublist ''TOOL:'' pre" and "\<not> sublist ''TOOL:'' post"
    and "int_max_str_digits < decimal_digits (int s) \<or> int_max_str_digits < decimal_digits (int e)"
  shows "parse_tool_calls (pre @ read_file_call tf b s e ex @ post) = []"
proof -
  let ?m = "(''read_file'', read_file_args tf b s e ex)"
  let ?r = "pre @ read_file_call tf b s e ex @ post"
  have "matches_anywhere ?r = [?m]"
    using assms matches_anywhere_call[of pre tf ex b s e post] matches_anywhere_no_mark[of post]
    by simp
  with all_matches_anywhere[of ?r] have "set (all_matches ?r) \<subseteq> {?m}"
    by auto
  moreover have "parse_call ?m = None"
    by (rule parse_call_read_file_call_long[OF assms(1-3,6)])
  ultimately have "collect_calls (all_matches ?r) [] = []"
    by (intro collect_calls_dropped) auto
  then show ?thesis
    by (simp add: parse_tool_calls_def)
qed

text \<open>
  C3 says that every well-formed \<open>TOOL:read_file(...)\<close> call gives a ToolCall that carries
  the literal parameter values. The patterns of the \<open>read_file\<close> branch for the string
  values, \<open>["\']([^"\']+)["\']\<close>, let either quote close what either quote opened, so a
  double-quoted explanation with an apostrophe is cut at the apostrophe: the call with
  \<open>explanation="it's here"\<close> gives a ToolCall whose explanation is \<open>it\<close>. The branch for the
  other tools does not share the slip: it reads its values up to the next comma and
  strips the outer quotes, so the same value of a tool \<open>note\<close> is carried whole.
\<close>

theorem parse_tool_calls_cuts_at_apostrophe:
  "parse_tool_calls
     (''TOOL:read_file(target_file='' @ [DQ] @ ''a.py'' @ [DQ]
        @ '', should_read_entire_file=false, start_line_one_indexed=1, ''
        @ ''end_line_one_indexed_inclusive=10, explanation='' @ [DQ] @ ''it'' @ [SQ] @ ''s here''
        @ [DQ] @ '')'')
     = [(''read_file'',
         [(''target_file'', VStr ''a.py''), (''should_read_entire_file'', VBool False),
          (''start_line_one_indexed'', VInt 1), (''end_line_one_indexed_inclusive'', VInt 10),
          (''explanation'', VStr ''it'')])]
   \<and> ''it'' \<noteq> ''it'' @ [SQ] @ ''s here''
   \<and> parse_tool_calls
        (''TOOL:note(explanation='' @ [DQ] @ ''it'' @ [SQ] @ ''s here'' @ [DQ] @ '')'')
     = [(''note'', [(''explanation'', VStr (''it'' @ [SQ] @ ''s here''))])]"
  by code_simp

end
